theory Spec2Isabelle
  imports Main
begin

section \<open>Data model\<close>

subsection \<open>Policy entries (json.RawMessage) and ProxyPolicy\<close>

text \<open>
  An entry of an endpoint's policy collection is a \<^verbatim>\<open>json.RawMessage\<close>. The program hands
  such bytes only to \<^verbatim>\<open>json.Unmarshal\<close> (with a \<^verbatim>\<open>ProxyPolicy\<close> as destination) and to
  \<^verbatim>\<open>json.Marshal\<close> (inside an endpoint), so the bytes are modelled by their JSON reading:
  bytes that are no JSON text at all, or a JSON value. Strings and member names stand
  decoded, as byte strings; of a number its text is kept; the members of an object are
  in the order of the text, a name given twice standing twice.
\<close>

datatype json =
    JNull
  | JBool bool
  | JNumber string
  | JString string
  | JArray "json list"
  | JObject "(string \<times> json) list"

datatype raw_message =
    NotJSON string
  | JSON json

text \<open>
  \<^verbatim>\<open>ProxyPolicy\<close> is a struct of hcsshim. The record has the four fields that the program
  sets; the fields \<^verbatim>\<open>ExceptionList []string\<close> and \<^verbatim>\<open>OutboundNat bool\<close>, which the program
  neither sets nor reads, count in the decoding for the error only.
\<close>

record ProxyPolicy =
  Type :: string
  IP :: string
  Port :: string
  Destination :: string

definition zero_ProxyPolicy :: ProxyPolicy where
  "zero_ProxyPolicy = \<lparr>Type = [], IP = [], Port = [], Destination = []\<rparr>"

definition Proxy :: string where
  "Proxy = ''PROXY''"

datatype field =
    Type_field
  | IP_field
  | Port_field
  | ExceptionList_field
  | Destination_field
  | OutboundNat_field

text \<open>
  The decoder looks a member's name up among the field names, first as it is written and
  then folded: \<^verbatim>\<open>foldName\<close> of encoding/json puts the ASCII letters in upper case and
  replaces every other character by the least one of its case orbit. Of those only the
  long s (bytes C5 BF) and the Kelvin sign (bytes E2 84 AA) fold to an ASCII letter, and
  no other one can make a name equal to a folded field name, so the others are left as
  they are.
\<close>

definition ascii_upper :: "char \<Rightarrow> char" where
  "ascii_upper c =
     (case map_of (zip ''abcdefghijklmnopqrstuvwxyz'' ''ABCDEFGHIJKLMNOPQRSTUVWXYZ'') c of
        Some u \<Rightarrow> u
      | None \<Rightarrow> c)"

fun foldName :: "string \<Rightarrow> string" where
  "foldName [] = []"
| "foldName [a] = [ascii_upper a]"
| "foldName [a, b] =
     (if a = CHR 0xC5 \<and> b = CHR 0xBF then ''S'' else [ascii_upper a, ascii_upper b])"
| "foldName (a # b # c # rest) =
     (if a = CHR 0xE2 \<and> b = CHR 0x84 \<and> c = CHR 0xAA then CHR ''K'' # foldName rest
      else if a = CHR 0xC5 \<and> b = CHR 0xBF then CHR ''S'' # foldName (c # rest)
      else ascii_upper a # foldName (b # c # rest))"

definition byExactName :: "string \<rightharpoonup> field" where
  "byExactName = map_of [(''Type'', Type_field), (''IP'', IP_field), (''Port'', Port_field),
     (''ExceptionList'', ExceptionList_field), (''Destination'', Destination_field),
     (''OutboundNat'', OutboundNat_field)]"

definition byFoldedName :: "string \<rightharpoonup> field" where
  "byFoldedName = map_of [(''TYPE'', Type_field), (''IP'', IP_field), (''PORT'', Port_field),
     (''EXCEPTIONLIST'', ExceptionList_field), (''DESTINATION'', Destination_field),
     (''OUTBOUNDNAT'', OutboundNat_field)]"

definition field_of_name :: "string \<rightharpoonup> field" where
  "field_of_name k =
     (case byExactName k of Some f \<Rightarrow> Some f | None \<Rightarrow> byFoldedName (foldName k))"

text \<open>
  Decoding one value into one field; the first component says that the value has the
  field's type. A string field takes a string and is left as it is by \<^verbatim>\<open>null\<close>, which is
  no error for any field; a value of another type leaves the field as it is and is an
  \<^verbatim>\<open>UnmarshalTypeError\<close>. An element of the array for \<^verbatim>\<open>ExceptionList\<close> is decoded as a
  string field is.
\<close>

definition store_string ::
  "(string \<Rightarrow> ProxyPolicy \<Rightarrow> ProxyPolicy) \<Rightarrow> json \<Rightarrow> ProxyPolicy \<Rightarrow> bool \<times> ProxyPolicy" where
  "store_string set_field v pp =
     (case v of
        JString s \<Rightarrow> (True, set_field s pp)
      | JNull \<Rightarrow> (True, pp)
      | _ \<Rightarrow> (False, pp))"

fun string_or_null :: "json \<Rightarrow> bool" where
  "string_or_null (JString _) = True"
| "string_or_null JNull = True"
| "string_or_null _ = False"

fun strings_or_null :: "json \<Rightarrow> bool" where
  "strings_or_null (JArray vs) = list_all string_or_null vs"
| "strings_or_null JNull = True"
| "strings_or_null _ = False"

fun bool_or_null :: "json \<Rightarrow> bool" where
  "bool_or_null (JBool _) = True"
| "bool_or_null JNull = True"
| "bool_or_null _ = False"

fun store :: "field \<Rightarrow> json \<Rightarrow> ProxyPolicy \<Rightarrow> bool \<times> ProxyPolicy" where
  "store Type_field v pp = store_string (\<lambda>s pp. pp\<lparr>Type := s\<rparr>) v pp"
| "store IP_field v pp = store_string (\<lambda>s pp. pp\<lparr>IP := s\<rparr>) v pp"
| "store Port_field v pp = store_string (\<lambda>s pp. pp\<lparr>Port := s\<rparr>) v pp"
| "store Destination_field v pp = store_string (\<lambda>s pp. pp\<lparr>Destination := s\<rparr>) v pp"
| "store ExceptionList_field v pp = (strings_or_null v, pp)"
| "store OutboundNat_field v pp = (bool_or_null v, pp)"

text \<open>
  One member of an object: a name that is no field's is skipped with its value. An error
  is kept and the decoding goes on with the next member, so the state is whether no
  error has been kept so far, and the destination.
\<close>

definition decode_member :: "string \<times> json \<Rightarrow> bool \<times> ProxyPolicy \<Rightarrow> bool \<times> ProxyPolicy" where
  "decode_member m st =
     (case field_of_name (fst m) of
        None \<Rightarrow> st
      | Some f \<Rightarrow> (let (typed, pp) = store f (snd m) (snd st) in (fst st \<and> typed, pp)))"

text \<open>
  \<^verbatim>\<open>json.Unmarshal(p, &proxyPolicy)\<close>: the result says whether the returned error is nil, and
  gives the destination afterwards. Bytes that are no JSON leave the destination as it
  was, with an error. \<^verbatim>\<open>null\<close> leaves it as it was, without one. An object is decoded
  member by member, in order: a field that no member names stays as it was, of a name
  given twice the last value is stored, and after a member of the wrong type the fields
  stored from the other members are stored all the same. Any other value is an error.
\<close>

fun json_Unmarshal :: "raw_message \<Rightarrow> ProxyPolicy \<Rightarrow> bool \<times> ProxyPolicy" where
  "json_Unmarshal (NotJSON _) pp = (False, pp)"
| "json_Unmarshal (JSON JNull) pp = (True, pp)"
| "json_Unmarshal (JSON (JObject ms)) pp = fold decode_member ms (True, pp)"
| "json_Unmarshal (JSON _) pp = (False, pp)"

text \<open>
  \<^verbatim>\<open>json.Marshal(policy)\<close> of a \<^verbatim>\<open>ProxyPolicy\<close>: member \<^verbatim>\<open>Type\<close> is always written, the
  other fields are declared \<^verbatim>\<open>omitempty\<close> in hcsshim, so the two that the program leaves
  at their zero values are never written. Marshalling a struct of strings does not fail;
  the result type keeps the error branch that the caller tests.
\<close>

definition omitempty :: "string \<Rightarrow> string \<Rightarrow> (string \<times> json) list" where
  "omitempty k v = (if v = [] then [] else [(k, JString v)])"

definition json_Marshal_policy :: "ProxyPolicy \<Rightarrow> string + raw_message" where
  "json_Marshal_policy pp =
     Inr (JSON (JObject ([(''Type'', JString (Type pp))] @ omitempty ''IP'' (IP pp)
                         @ omitempty ''Port'' (Port pp)
                         @ omitempty ''Destination'' (Destination pp))))"

subsection \<open>Endpoints, requests and responses\<close>

text \<open>
  Of \<^verbatim>\<open>HNSEndpoint\<close> the fields that the program reads: \<^verbatim>\<open>Id\<close> (written \<open>Id'\<close> here),
  \<^verbatim>\<open>IPAddress\<close> as \<^verbatim>\<open>IPAddress.String()\<close> prints it, and \<^verbatim>\<open>Policies\<close>.
\<close>

record HNSEndpoint =
  Id' :: string
  IPAddress :: string
  Policies :: "raw_message list"

text \<open>
  Byte payloads of requests and responses, by what they hold: nothing (\<^verbatim>\<open>nil\<close>), one
  marshalled endpoint, a marshalled list of endpoints, or anything else.
\<close>

datatype bytes =
    Nil_bytes
  | Endpoint_bytes HNSEndpoint
  | Endpoints_bytes "HNSEndpoint list"
  | Other_bytes string

datatype Entity = EndpointV1
datatype Operation = Enumerate | Modify

record HNSRequest =
  Entity :: Entity
  Operation :: Operation
  Request :: bytes

record HNSResponse =
  Error :: "string option"
  Response :: bytes

text \<open>\<^verbatim>\<open>json.Unmarshal(response, &endpoints)\<close> with a fresh \<^verbatim>\<open>[]HNSEndpoint\<close> destination.\<close>

fun json_Unmarshal_endpoints :: "bytes \<Rightarrow> string + HNSEndpoint list" where
  "json_Unmarshal_endpoints (Endpoints_bytes eps) = Inr eps"
| "json_Unmarshal_endpoints Nil_bytes = Inl ''unexpected end of JSON input''"
| "json_Unmarshal_endpoints (Endpoint_bytes _) =
     Inl ''json: cannot unmarshal object into Go value of type []hcsshim.HNSEndpoint''"
| "json_Unmarshal_endpoints (Other_bytes _) = Inl ''invalid character''"

text \<open>
  \<^verbatim>\<open>json.Marshal(endpoint)\<close>: the encoder checks every \<^verbatim>\<open>RawMessage\<close> it copies and fails
  on one that is not JSON.
\<close>

fun is_NotJSON :: "raw_message \<Rightarrow> bool" where
  "is_NotJSON (NotJSON _) = True"
| "is_NotJSON _ = False"

definition json_Marshal_endpoint :: "HNSEndpoint \<Rightarrow> string + bytes" where
  "json_Marshal_endpoint ep =
     (if list_ex is_NotJSON (Policies ep)
      then Inl ''json: error calling MarshalJSON for type json.RawMessage''
      else Inr (Endpoint_bytes ep))"

subsection \<open>The world outside the program\<close>

text \<open>
  The backend and the pod client are collaborators with a state of their own (type \<open>'b\<close>).
  What the program does to the outside is recorded, in order, in a trace: each raw backend
  call, each \<^verbatim>\<open>time.Sleep\<close> (in seconds), each metric report and the exit of the process.
  Two further events mark the entry into \<^verbatim>\<open>ApplyEndpointRoutePolicy\<close> and
  \<^verbatim>\<open>DeleteEndpointRoutePolicy\<close> with the pod IP passed, so that the calls a loop issues can
  be read off the trace. Log lines (klog) are not recorded.
\<close>

record Pod =
  UID :: string
  Name :: string
  Spec_NodeName :: string
  Status_PodIP :: string
  Status_HostIP :: string

datatype Metric = NMIHostPolicyApplyFailedCountM | NMIHostPolicyApplyCountM

datatype event =
    Invoke HNSRequest
  | Sleep int
  | Apply_entered string
  | Delete_entered string
  | Report string string Metric
  | Exit int

record 'b env =
  InvokeHNSRequestFunc :: "HNSRequest \<Rightarrow> 'b \<Rightarrow> HNSResponse \<times> 'b"
  ListPods :: "'b \<Rightarrow> (Pod list \<times> string option) \<times> 'b"

record 'b world =
  ext :: 'b
  trace :: "event list"

definition emit :: "event \<Rightarrow> 'b world \<Rightarrow> 'b world" where
  "emit e w = w\<lparr>trace := trace w @ [e]\<rparr>"

definition time_Sleep :: "int \<Rightarrow> 'b world \<Rightarrow> 'b world" where
  "time_Sleep seconds w = emit (Sleep seconds) w"

section \<open>endpointpolicy.go\<close>

definition InvalidOperation :: string where "InvalidOperation = ''InvalidOperation''"
definition NotFound :: string where "NotFound = ''NotFound''"
definition UnKnown :: string where "UnKnown = ''UnKnown''"

record endpointPolicyError =
  errType :: string
  err :: string

definition Error_string :: "endpointPolicyError \<Rightarrow> string" where
  "Error_string e = errType e @ '': '' @ err e"

subsection \<open>updateEndpointPolicies\<close>

text \<open>
  \<^verbatim>\<open>endpointPolicies := policies\<close> copies the slice header only: both slices are views of one
  array. The state of the loop is that array (its first \<^verbatim>\<open>len(policies)\<close> cells), the
  length of \<^verbatim>\<open>endpointPolicies\<close>, the two counters and the reused decode destination.
  \<^verbatim>\<open>range policies\<close> fixes the number of iterations at the start and reads cell \<open>i\<close> of the
  array in iteration \<open>i\<close>.
\<close>

record upd_state =
  arr :: "raw_message list"
  len :: nat
  count :: int
  index :: int
  proxyPolicy :: ProxyPolicy

text \<open>
  \<^verbatim>\<open>append(s[:i], s[i+1:]...)\<close> for a slice \<open>s\<close> of length \<open>n\<close> over array \<open>a\<close>: the capacity
  suffices, so the cells \<open>i+1 .. n-1\<close> are copied down by one inside \<open>a\<close>; cell \<open>n-1\<close> and
  the cells behind keep their content. The new slice has length \<open>n-1\<close>.
\<close>

definition append_delete :: "'a list \<Rightarrow> nat \<Rightarrow> nat \<Rightarrow> 'a list" where
  "append_delete a n i = take i a @ take (n - (i + 1)) (drop (i + 1) a) @ drop (n - 1) a"

definition upd_step :: "string \<Rightarrow> nat \<Rightarrow> upd_state \<Rightarrow> upd_state" where
  "upd_step metadataIP i s =
     (let p = arr s ! i;
          (err_nil, pp) = json_Unmarshal p (proxyPolicy s)
      in if err_nil \<and> IP pp = metadataIP
         then (let c = count s + 1; ix = int i - c
               in s\<lparr>arr := append_delete (arr s) (len s) (nat ix), len := len s - 1,
                     count := c, index := ix, proxyPolicy := pp\<rparr>)
         else s\<lparr>proxyPolicy := pp\<rparr>)"

definition upd_init :: "raw_message list \<Rightarrow> upd_state" where
  "upd_init policies =
     \<lparr>arr = policies, len = length policies, count = - 1, index = 0,
      proxyPolicy = zero_ProxyPolicy\<rparr>"

definition updateEndpointPolicies :: "raw_message list \<Rightarrow> string \<Rightarrow> raw_message list" where
  "updateEndpointPolicies policies metadataIP =
     (let s = fold (upd_step metadataIP) [0..<length policies] (upd_init policies)
      in take (len s) (arr s))"

subsection \<open>callHcnProxyAgent\<close>

definition callHcnProxyAgentInternal ::
  "'b env \<Rightarrow> HNSRequest \<Rightarrow> 'b world \<Rightarrow> (string + bytes) \<times> 'b world" where
  "callHcnProxyAgentInternal env req w =
     (let (res, b) = InvokeHNSRequestFunc env req (ext w);
          w1 = emit (Invoke req) (w\<lparr>ext := b\<rparr>)
      in case Error res of
           Some e \<Rightarrow> (Inl e, w1)
         | None \<Rightarrow> (Inr (Response res), w1))"

definition maxRetryCount :: int where
  "maxRetryCount = 4"

function callHcnProxyAgent_loop ::
  "'b env \<Rightarrow> HNSRequest \<Rightarrow> int \<Rightarrow> int \<Rightarrow> 'b world \<Rightarrow> (string + bytes) \<times> 'b world" where
  "callHcnProxyAgent_loop env req retryCount sleepFactor w =
     (let (r, w1) = callHcnProxyAgentInternal env req w
      in case r of
           Inl e \<Rightarrow>
             if retryCount > maxRetryCount then (Inl e, w1)
             else callHcnProxyAgent_loop env req (retryCount + 1) (sleepFactor * 2)
                    (time_Sleep sleepFactor w1)
         | Inr response \<Rightarrow> (Inr response, w1))"
  by pat_completeness auto
termination
  by (relation "measure (\<lambda>(env, req, retryCount, sleepFactor, w). nat (5 - retryCount))")
     (auto simp: maxRetryCount_def)

definition callHcnProxyAgent ::
  "'b env \<Rightarrow> HNSRequest \<Rightarrow> 'b world \<Rightarrow> (string + bytes) \<times> 'b world" where
  "callHcnProxyAgent env req w = callHcnProxyAgent_loop env req 1 1 w"

subsection \<open>getEndpointByIP\<close>

definition enumerate_request :: HNSRequest where
  "enumerate_request = \<lparr>Entity = EndpointV1, Operation = Enumerate, Request = Nil_bytes\<rparr>"

definition no_endpoint_found :: "string \<Rightarrow> string" where
  "no_endpoint_found ip = ''No endpoint found for Pod IP - '' @ ip @ ''.''"

function getEndpointByIP_loop ::
  "'b env \<Rightarrow> string \<Rightarrow> int \<Rightarrow> int \<Rightarrow> 'b world \<Rightarrow> (endpointPolicyError + HNSEndpoint) \<times> 'b world"
  where
  "getEndpointByIP_loop env ip retryCount sleepFactor w =
     (let (r, w1) = callHcnProxyAgent env enumerate_request w
      in case r of
           Inl e \<Rightarrow> (Inl \<lparr>errType = InvalidOperation, err = e\<rparr>, w1)
         | Inr response \<Rightarrow>
             (case json_Unmarshal_endpoints response of
                Inl e \<Rightarrow> (Inl \<lparr>errType = InvalidOperation, err = e\<rparr>, w1)
              | Inr endpoints \<Rightarrow>
                  (case find (\<lambda>ep. IPAddress ep = ip) endpoints of
                     Some ep \<Rightarrow> (Inr ep, w1)
                   | None \<Rightarrow>
                       if retryCount > maxRetryCount
                       then (Inl \<lparr>errType = NotFound, err = no_endpoint_found ip\<rparr>, w1)
                       else getEndpointByIP_loop env ip (retryCount + 1) (sleepFactor * 2)
                              (time_Sleep sleepFactor w1))))"
  by pat_completeness auto
termination
  by (relation "measure (\<lambda>(env, ip, retryCount, sleepFactor, w). nat (5 - retryCount))")
     (auto simp: maxRetryCount_def)

definition getEndpointByIP ::
  "'b env \<Rightarrow> string \<Rightarrow> 'b world \<Rightarrow> (endpointPolicyError + HNSEndpoint) \<times> 'b world" where
  "getEndpointByIP env ip w = getEndpointByIP_loop env ip 1 1 w"

subsection \<open>addEndpointPolicy and deleteEndpointPolicy\<close>

text \<open>
  Both write \<^verbatim>\<open>endpoint.Policies\<close> through the pointer they are given; the model returns
  the endpoint as it is afterwards, beside the error (\<open>None\<close> is \<^verbatim>\<open>nil\<close>).
\<close>

definition modify_request :: "bytes \<Rightarrow> HNSRequest" where
  "modify_request jsonStr = \<lparr>Entity = EndpointV1, Operation = Modify, Request = jsonStr\<rparr>"

definition addEndpointPolicy ::
  "'b env \<Rightarrow> HNSEndpoint \<Rightarrow> string \<Rightarrow> string \<Rightarrow> string \<Rightarrow> string \<Rightarrow> 'b world
     \<Rightarrow> (string option \<times> HNSEndpoint) \<times> 'b world" where
  "addEndpointPolicy env endpoint metadataIP metadataPort nmiIP nmiPort w =
     (let endpoint1 = endpoint\<lparr>Policies := updateEndpointPolicies (Policies endpoint) metadataIP\<rparr>;
          policy = \<lparr>Type = Proxy, IP = metadataIP, Port = metadataPort,
                    Destination = nmiIP @ '':'' @ nmiPort\<rparr>
      in case json_Marshal_policy policy of
           Inl e \<Rightarrow> ((Some e, endpoint1), w)
         | Inr jsonStr \<Rightarrow>
             (let endpoint2 = endpoint1\<lparr>Policies := Policies endpoint1 @ [jsonStr]\<rparr>
              in case json_Marshal_endpoint endpoint2 of
                   Inl e \<Rightarrow> ((Some e, endpoint2), w)
                 | Inr jsonStr2 \<Rightarrow>
                     (let (r, w1) = callHcnProxyAgent env (modify_request jsonStr2) w
                      in case r of
                           Inl e \<Rightarrow> ((Some e, endpoint2), w1)
                         | Inr _ \<Rightarrow> ((None, endpoint2), w1))))"

definition deleteEndpointPolicy ::
  "'b env \<Rightarrow> HNSEndpoint \<Rightarrow> string \<Rightarrow> 'b world \<Rightarrow> (string option \<times> HNSEndpoint) \<times> 'b world"
  where
  "deleteEndpointPolicy env endpoint metadataIP w =
     (let endpoint1 = endpoint\<lparr>Policies := updateEndpointPolicies (Policies endpoint) metadataIP\<rparr>
      in case json_Marshal_endpoint endpoint1 of
           Inl e \<Rightarrow> ((Some e, endpoint1), w)
         | Inr jsonStr \<Rightarrow>
             (let (r, w1) = callHcnProxyAgent env (modify_request jsonStr) w
              in case r of
                   Inl e \<Rightarrow> ((Some e, endpoint1), w1)
                 | Inr _ \<Rightarrow> ((None, endpoint1), w1)))"

subsection \<open>ApplyEndpointRoutePolicy and DeleteEndpointRoutePolicy\<close>

text \<open>
  The result is the pair the Go function returns: the error (\<open>None\<close> is \<^verbatim>\<open>nil\<close>) and the
  classification string. \<^verbatim>\<open>getEndpointByIP\<close> returns a pointer to a copy of the endpoint, so
  what the policy editor writes into it is not seen again.
\<close>

definition get_endpoint_failed :: "string \<Rightarrow> string \<Rightarrow> string" where
  "get_endpoint_failed podIP e = ''Get endpoint for Pod IP - '' @ podIP @ ''. Error: '' @ e"

definition ApplyEndpointRoutePolicy ::
  "'b env \<Rightarrow> string \<Rightarrow> string \<Rightarrow> string \<Rightarrow> string \<Rightarrow> string \<Rightarrow> 'b world
     \<Rightarrow> (string option \<times> string) \<times> 'b world" where
  "ApplyEndpointRoutePolicy env podIP metadataIP metadataPort nmiIP nmiPort w0 =
     (let w = emit (Apply_entered podIP) w0
      in if podIP = [] then ((Some ''Missing IP Address'', NotFound), w)
         else
           (let (r, w1) = getEndpointByIP env podIP w
            in case r of
                 Inl e \<Rightarrow>
                   if errType e = InvalidOperation
                   then ((Some (get_endpoint_failed podIP (err e)), errType e), w1)
                   else if errType e = NotFound then ((None, []), w1)
                   else ((Some (get_endpoint_failed podIP (Error_string e)), UnKnown), w1)
               | Inr endpoint \<Rightarrow>
                   (let ((e, _), w2) =
                          addEndpointPolicy env endpoint metadataIP metadataPort nmiIP nmiPort w1
                    in case e of
                         Some msg \<Rightarrow>
                           ((Some (''Could not add policy for ip ['' @ podIP @ ''] to endpoint - ''
                                   @ Id' endpoint @ ''. Error: '' @ msg), UnKnown), w2)
                       | None \<Rightarrow> ((None, []), w2))))"

definition DeleteEndpointRoutePolicy ::
  "'b env \<Rightarrow> string \<Rightarrow> string \<Rightarrow> 'b world \<Rightarrow> (string option \<times> string) \<times> 'b world" where
  "DeleteEndpointRoutePolicy env podIP metadataIP w0 =
     (let w = emit (Delete_entered podIP) w0
      in if podIP = [] then ((Some ''Missing IP Address'', NotFound), w)
         else
           (let (r, w1) = getEndpointByIP env podIP w
            in case r of
                 Inl e \<Rightarrow>
                   if errType e = InvalidOperation
                   then ((Some (get_endpoint_failed podIP (err e)), errType e), w1)
                   else if errType e = NotFound then ((None, []), w1)
                   else ((Some (get_endpoint_failed podIP (Error_string e)), UnKnown), w1)
               | Inr endpoint \<Rightarrow>
                   (let ((e, _), w2) = deleteEndpointPolicy env endpoint metadataIP w1
                    in case e of
                         Some msg \<Rightarrow>
                           ((Some (''Could't delete policy for ip ['' @ podIP @ ''] to endpoint - ''
                                   @ Id' endpoint @ ''. Error: '' @ msg), UnKnown), w2)
                       | None \<Rightarrow> ((None, []), w2))))"

section \<open>The Windows redirector with self-heal (\<^verbatim>\<open>redirector_windows.go\<close>)\<close>

record Server =
  NodeName :: string
  HostIP :: string
  MetadataIP :: string
  MetadataPort :: string
  NMIPort :: string
  Initialized :: bool

definition uploadIPRoutePolicyMetrics ::
  "string option \<Rightarrow> Server \<Rightarrow> string \<Rightarrow> 'b world \<Rightarrow> 'b world" where
  "uploadIPRoutePolicyMetrics e server podIP w =
     (let w1 = (if e \<noteq> None
                then emit (Report podIP (NodeName server) NMIHostPolicyApplyFailedCountM) w
                else w)
      in emit (Report podIP (NodeName server) NMIHostPolicyApplyCountM) w1)"

text \<open>
  \<^verbatim>\<open>server.PodClient.ListPods()\<close>. The error is logged only, and the loops that follow range
  over whatever list came back with it.
\<close>

definition list_pods :: "'b env \<Rightarrow> 'b world \<Rightarrow> (Pod list \<times> string option) \<times> 'b world" where
  "list_pods env w = (let (r, b) = ListPods env (ext w) in (r, w\<lparr>ext := b\<rparr>))"

text \<open>
  The body of the loop over \<^verbatim>\<open>listPods\<close> in \<^verbatim>\<open>ApplyRoutePolicyForExistingPods\<close>, and the
  whole function.
\<close>

definition apply_existing_pod :: "'b env \<Rightarrow> Server \<Rightarrow> Pod \<Rightarrow> 'b world \<Rightarrow> 'b world" where
  "apply_existing_pod env server podItem w =
     (if Spec_NodeName podItem = NodeName server \<and> Status_PodIP podItem \<noteq> []
         \<and> Status_PodIP podItem \<noteq> HostIP server
      then (let ((e, _), w1) =
                  ApplyEndpointRoutePolicy env (Status_PodIP podItem) (MetadataIP server)
                    (MetadataPort server) (HostIP server) (NMIPort server) w
            in uploadIPRoutePolicyMetrics e server (Status_PodIP podItem) w1)
      else w)"

definition ApplyRoutePolicyForExistingPods :: "'b env \<Rightarrow> Server \<Rightarrow> 'b world \<Rightarrow> 'b world" where
  "ApplyRoutePolicyForExistingPods env server w =
     (let ((listPods, _), w1) = list_pods env w
      in fold (apply_existing_pod env server) listPods w1)"

definition RoutePolicySelfHeal :: "'b env \<Rightarrow> Server \<Rightarrow> 'b world \<Rightarrow> 'b world" where
  "RoutePolicySelfHeal env server w = ApplyRoutePolicyForExistingPods env server (time_Sleep 10 w)"

text \<open>The body of the loop over \<^verbatim>\<open>listPods\<close> in \<^verbatim>\<open>DeleteRoutePolicyForExistingPods\<close>.\<close>

definition delete_existing_pod :: "'b env \<Rightarrow> Server \<Rightarrow> Pod \<Rightarrow> 'b world \<Rightarrow> 'b world" where
  "delete_existing_pod env server podItem w =
     (if Spec_NodeName podItem = NodeName server
      then (let ((e, _), w1) =
                  DeleteEndpointRoutePolicy env (Status_PodIP podItem) (MetadataIP server) w
            in uploadIPRoutePolicyMetrics e server (Status_PodIP podItem) w1)
      else w)"

text \<open>\<^verbatim>\<open>os.Exit\<close> ends the process: \<open>Exit\<close> is the last event of a trace that has it.\<close>

definition DeleteRoutePolicyForExistingPods :: "'b env \<Rightarrow> Server \<Rightarrow> 'b world \<Rightarrow> 'b world" where
  "DeleteRoutePolicyForExistingPods env server w =
     (let ((listPods, e), w1) = list_pods env w;
          exitCode = (if e \<noteq> None then 1 else 0);
          w2 = fold (delete_existing_pod env server) listPods w1
      in emit (Exit exitCode) (time_Sleep 10 w2))"

text \<open>
  The \<^verbatim>\<open>select\<close> of \<^verbatim>\<open>Sync\<close> receives from three channels. The order in which they deliver
  is the input of the model: a list of what each round of the loop receives. After the last
  element the loop waits; a signal or the closing of \<^verbatim>\<open>mainRoutineDone\<close> ends the process
  inside \<^verbatim>\<open>DeleteRoutePolicyForExistingPods\<close>.
\<close>

datatype received = From_signalChan | From_mainRoutineDone | From_PodObjChannel Pod

text \<open>The case of \<^verbatim>\<open>Sync\<close> that receives a pod.\<close>

definition Sync_pod :: "'b env \<Rightarrow> Server \<Rightarrow> Pod \<Rightarrow> 'b world \<Rightarrow> 'b world" where
  "Sync_pod env server pod w =
     (if Status_PodIP pod \<noteq> [] \<and> NodeName server = Spec_NodeName pod
         \<and> HostIP server \<noteq> Status_PodIP pod
      then (let ((e, t), w1) =
                  ApplyEndpointRoutePolicy env (Status_PodIP pod) (MetadataIP server)
                    (MetadataPort server) (HostIP server) (NMIPort server) w;
                w2 = uploadIPRoutePolicyMetrics e server (Status_PodIP pod) w1
            in if e \<noteq> None
               then (if t \<noteq> NotFound then RoutePolicySelfHeal env server w2 else w2)
               else w2)
      else w)"

fun Sync_loop :: "'b env \<Rightarrow> Server \<Rightarrow> received list \<Rightarrow> 'b world \<Rightarrow> 'b world" where
  "Sync_loop env server [] w = w"
| "Sync_loop env server (From_signalChan # _) w = DeleteRoutePolicyForExistingPods env server w"
| "Sync_loop env server (From_mainRoutineDone # _) w =
     DeleteRoutePolicyForExistingPods env server w"
| "Sync_loop env server (From_PodObjChannel pod # rest) w =
     Sync_loop env server rest (Sync_pod env server pod w)"

definition Sync :: "'b env \<Rightarrow> Server \<Rightarrow> received list \<Rightarrow> 'b world \<Rightarrow> Server \<times> 'b world" where
  "Sync env server input w =
     (let w1 = ApplyRoutePolicyForExistingPods env server w;
          server1 = server\<lparr>Initialized := True\<rparr>
      in (server1, Sync_loop env server1 input w1))"

section \<open>The incremental Windows redirector (WindowsRedirector, with podMap)\<close>

text \<open>
  This variant keeps the package-level \<^verbatim>\<open>podMap\<close> from pod UID to pod IP; it reports no
  metrics and drops what the two policy operations return.
\<close>

type_synonym podMap = "string \<rightharpoonup> string"

text \<open>The case of \<^verbatim>\<open>WindowsRedirector.Sync\<close> that receives a pod.\<close>

definition WindowsRedirector_Sync_pod ::
  "'b env \<Rightarrow> Server \<Rightarrow> Pod \<Rightarrow> podMap \<times> 'b world \<Rightarrow> podMap \<times> 'b world" where
  "WindowsRedirector_Sync_pod env server pod st =
     (let (pm, w) = st
      in if NodeName server = Spec_NodeName pod \<and> HostIP server \<noteq> Status_PodIP pod
         then (case pm (UID pod) of
                 Some podIP \<Rightarrow>
                   (let (_, w1) = DeleteEndpointRoutePolicy env podIP (MetadataIP server) w
                    in (pm(UID pod := None), w1))
               | None \<Rightarrow>
                   (let pm1 = pm(UID pod \<mapsto> Status_PodIP pod);
                        (_, w1) = ApplyEndpointRoutePolicy env (Status_PodIP pod)
                                    (MetadataIP server) (MetadataPort server) (HostIP server)
                                    (NMIPort server) w
                    in (pm1, w1)))
         else (pm, w))"

definition WindowsRedirector_delete_existing_pod ::
  "'b env \<Rightarrow> Server \<Rightarrow> Pod \<Rightarrow> 'b world \<Rightarrow> 'b world" where
  "WindowsRedirector_delete_existing_pod env server podItem w =
     (if Spec_NodeName podItem = NodeName server
      then snd (DeleteEndpointRoutePolicy env (Status_PodIP podItem) (MetadataIP server) w)
      else w)"

definition WindowsRedirector_DeleteRoutePolicyForExistingPods ::
  "'b env \<Rightarrow> Server \<Rightarrow> 'b world \<Rightarrow> 'b world" where
  "WindowsRedirector_DeleteRoutePolicyForExistingPods env server w =
     (let ((listPods, e), w1) = list_pods env w;
          exitCode = (if e \<noteq> None then 1 else 0);
          w2 = fold (WindowsRedirector_delete_existing_pod env server) listPods w1
      in emit (Exit exitCode) (time_Sleep 10 w2))"

text \<open>The \<^verbatim>\<open>select\<close> of this variant has two cases only.\<close>

datatype WindowsRedirector_received = Got_signal | Got_pod Pod

fun WindowsRedirector_Sync_loop ::
  "'b env \<Rightarrow> Server \<Rightarrow> WindowsRedirector_received list \<Rightarrow> podMap \<times> 'b world
     \<Rightarrow> podMap \<times> 'b world" where
  "WindowsRedirector_Sync_loop env server [] st = st"
| "WindowsRedirector_Sync_loop env server (Got_signal # _) st =
     (fst st, WindowsRedirector_DeleteRoutePolicyForExistingPods env server (snd st))"
| "WindowsRedirector_Sync_loop env server (Got_pod pod # rest) st =
     WindowsRedirector_Sync_loop env server rest (WindowsRedirector_Sync_pod env server pod st)"

section \<open>The health probe of the NMI on Windows (initNMIWindowsHealthProbe)\<close>

record Taint =
  Key :: string
  Taint_Value :: string
  Effect :: string

record Node =
  Node_Name :: string
  Taints :: "Taint list"

definition TaintEffectNoSchedule :: string where
  "TaintEffectNoSchedule = ''NoSchedule''"

definition hcnagentfailed :: string where
  "hcnagentfailed = ''hcnagentfailed''"

definition removeTaint :: "Taint list \<Rightarrow> string \<Rightarrow> Taint list" where
  "removeTaint taints taintName =
     fold (\<lambda>taint newTaints. if Key taint = taintName then newTaints else newTaints @ [taint])
       taints []"

text \<open>
  One request to \<^verbatim>\<open>/healthz\<close>. The inputs are the response of the backend to the
  enumerate request, the node that \<^verbatim>\<open>Nodes().Get\<close> returned and the condition flag; the
  outputs are the node handed to \<^verbatim>\<open>Nodes().Update\<close>, the status code and the body.
\<close>

record probe_result =
  updated :: Node
  statusCode :: int
  body :: string

definition healthz :: "HNSResponse \<Rightarrow> Node \<Rightarrow> bool \<Rightarrow> probe_result" where
  "healthz res currentNode condition =
     (let b = (if condition then ''Active'' else ''Not Active'')
      in if Error res \<noteq> None
         then \<lparr>updated = currentNode\<lparr>Taints := Taints currentNode @
                   [\<lparr>Key = hcnagentfailed, Taint_Value = [], Effect = TaintEffectNoSchedule\<rparr>]\<rparr>,
               statusCode = 500, body = b\<rparr>
         else \<lparr>updated = currentNode\<lparr>Taints := removeTaint (Taints currentNode) hcnagentfailed\<rparr>,
               statusCode = 200, body = b\<rparr>)"

section \<open>Notions used in the statements\<close>

subsection \<open>Attempts of the gateway\<close>

text \<open>
  \<open>attempt env req b n\<close> is the response to the \<open>n\<close>-th raw call (counted from 0) when
  the request is repeated from backend state \<open>b\<close>. \<open>before_attempt\<close> and \<open>after_attempt\<close>
  are the worlds in which a gateway that started in \<open>w\<close> makes attempt \<open>k\<close> and has made it:
  after attempt \<open>j < k\<close> it has slept \<open>2 ^ j\<close> seconds.
\<close>

primrec backend_after :: "'b env \<Rightarrow> HNSRequest \<Rightarrow> nat \<Rightarrow> 'b \<Rightarrow> 'b" where
  "backend_after env req 0 b = b"
| "backend_after env req (Suc n) b =
     snd (InvokeHNSRequestFunc env req (backend_after env req n b))"

definition attempt :: "'b env \<Rightarrow> HNSRequest \<Rightarrow> 'b \<Rightarrow> nat \<Rightarrow> HNSResponse" where
  "attempt env req b n = fst (InvokeHNSRequestFunc env req (backend_after env req n b))"

definition retries_trace :: "HNSRequest \<Rightarrow> nat \<Rightarrow> event list" where
  "retries_trace req k = concat (map (\<lambda>j. [Invoke req, Sleep (2 ^ j)]) [0..<k])"

definition before_attempt :: "'b env \<Rightarrow> HNSRequest \<Rightarrow> 'b world \<Rightarrow> nat \<Rightarrow> 'b world" where
  "before_attempt env req w k =
     w\<lparr>ext := backend_after env req k (ext w), trace := trace w @ retries_trace req k\<rparr>"

definition after_attempt :: "'b env \<Rightarrow> HNSRequest \<Rightarrow> 'b world \<Rightarrow> nat \<Rightarrow> 'b world" where
  "after_attempt env req w k =
     w\<lparr>ext := backend_after env req (Suc k) (ext w),
       trace := trace w @ retries_trace req k @ [Invoke req]\<rparr>"

subsection \<open>Enumerations of the locator\<close>

text \<open>
  What one round of the locator finds in the result of the gateway, and the worlds in
  which a locator that started in \<open>w\<close> makes enumeration \<open>k\<close> (counted from 0): after
  enumeration \<open>j < k\<close> it has slept \<open>2 ^ j\<close> seconds.
\<close>

datatype scan_result = Gateway_error string | Decode_error string | Found HNSEndpoint | No_match

definition scan :: "string \<Rightarrow> (string + bytes) \<Rightarrow> scan_result" where
  "scan ip r =
     (case r of
        Inl e \<Rightarrow> Gateway_error e
      | Inr response \<Rightarrow>
          (case json_Unmarshal_endpoints response of
             Inl e \<Rightarrow> Decode_error e
           | Inr endpoints \<Rightarrow>
               (case find (\<lambda>ep. IPAddress ep = ip) endpoints of
                  Some ep \<Rightarrow> Found ep
                | None \<Rightarrow> No_match)))"

primrec before_enumeration :: "'b env \<Rightarrow> 'b world \<Rightarrow> nat \<Rightarrow> 'b world" where
  "before_enumeration env w 0 = w"
| "before_enumeration env w (Suc k) =
     time_Sleep (2 ^ k)
       (snd (callHcnProxyAgent env enumerate_request (before_enumeration env w k)))"

definition enumeration :: "'b env \<Rightarrow> 'b world \<Rightarrow> nat \<Rightarrow> (string + bytes) \<times> 'b world" where
  "enumeration env w k = callHcnProxyAgent env enumerate_request (before_enumeration env w k)"

subsection \<open>Calls in a trace, and pods in scope\<close>

text \<open>
  The calls of a world are the entries into the two policy operations and the exit, in
  order. A pod is in scope when it is on this node, has an IP, and the IP is not the
  host's.
\<close>

fun is_call :: "event \<Rightarrow> bool" where
  "is_call (Apply_entered _) = True"
| "is_call (Delete_entered _) = True"
| "is_call (Exit _) = True"
| "is_call _ = False"

definition calls :: "'b world \<Rightarrow> event list" where
  "calls w = filter is_call (trace w)"

definition in_scope :: "Server \<Rightarrow> Pod \<Rightarrow> bool" where
  "in_scope server pod \<longleftrightarrow>
     Spec_NodeName pod = NodeName server \<and> Status_PodIP pod \<noteq> []
     \<and> Status_PodIP pod \<noteq> HostIP server"

definition on_node :: "Server \<Rightarrow> Pod \<Rightarrow> bool" where
  "on_node server pod \<longleftrightarrow> Spec_NodeName pod = NodeName server"

subsection \<open>Entries for a target address\<close>

text \<open>
  The decoded target address of one entry, taken alone: the entry decodes into a fresh
  \<^verbatim>\<open>ProxyPolicy\<close> without error, and field \<^verbatim>\<open>IP\<close> is the address.
\<close>

definition targets :: "string \<Rightarrow> raw_message \<Rightarrow> bool" where
  "targets addr p = (case json_Unmarshal p zero_ProxyPolicy of (err_nil, pp) \<Rightarrow> err_nil \<and> IP pp = addr)"

text \<open>
  An entry stores an address when decoding it into a fresh \<^verbatim>\<open>ProxyPolicy\<close> leaves the
  address in field \<^verbatim>\<open>IP\<close>, with or without an error: an entry with a member of the wrong
  type stores the address of its member \<^verbatim>\<open>IP\<close> and is no entry for that address.
\<close>

definition stores :: "string \<Rightarrow> raw_message \<Rightarrow> bool" where
  "stores addr p \<longleftrightarrow> IP (snd (json_Unmarshal p zero_ProxyPolicy)) = addr"

text \<open>\<^verbatim>\<open>addEndpointPolicy\<close> twice in a row: the second call gets the endpoint the first left.\<close>

definition addEndpointPolicy_twice ::
  "'b env \<Rightarrow> HNSEndpoint \<Rightarrow> string \<Rightarrow> string \<Rightarrow> string \<Rightarrow> string \<Rightarrow> 'b world \<Rightarrow> HNSEndpoint" where
  "addEndpointPolicy_twice env endpoint metadataIP metadataPort nmiIP nmiPort w =
     (let ((_, endpoint1), w1) = addEndpointPolicy env endpoint metadataIP metadataPort nmiIP nmiPort w;
          ((_, endpoint2), w2) = addEndpointPolicy env endpoint1 metadataIP metadataPort nmiIP nmiPort w1
      in endpoint2)"

subsection \<open>Runs of the removal loop\<close>

text \<open>
  \<open>upd_run\<close> is the state of the removal loop after \<open>k\<close> rounds; an entry hits when the
  loop's test on it succeeds, which depends on what the reused destination holds.
  \<open>redirect_entry\<close> is the entry that \<^verbatim>\<open>addEndpointPolicy\<close> appends.
\<close>

definition upd_run :: "string \<Rightarrow> raw_message list \<Rightarrow> nat \<Rightarrow> upd_state" where
  "upd_run metadataIP policies k = fold (upd_step metadataIP) [0..<k] (upd_init policies)"

definition hits :: "string \<Rightarrow> raw_message \<Rightarrow> ProxyPolicy \<Rightarrow> bool" where
  "hits metadataIP p pp =
     (case json_Unmarshal p pp of (err_nil, pp') \<Rightarrow> err_nil \<and> IP pp' = metadataIP)"

definition clean :: "string \<Rightarrow> upd_state \<Rightarrow> nat \<Rightarrow> bool" where
  "clean metadataIP s i \<longleftrightarrow>
     (\<forall>k<length (arr s). k < len s \<or> i \<le> k \<longrightarrow> \<not> stores metadataIP (arr s ! k))"

definition redirect_entry :: "string \<Rightarrow> string \<Rightarrow> string \<Rightarrow> string \<Rightarrow> raw_message" where
  "redirect_entry metadataIP metadataPort nmiIP nmiPort =
     JSON (JObject ([(''Type'', JString Proxy)] @ omitempty ''IP'' metadataIP
                    @ omitempty ''Port'' metadataPort
                    @ omitempty ''Destination'' (nmiIP @ '':'' @ nmiPort)))"

section \<open>Inputs of the examples\<close>

subsection \<open>A scripted backend\<close>

text \<open>
  The state of this backend is the number of raw calls made so far; a script gives the
  response to each call from that number and the request. Listing the pods always gives
  the same result.
\<close>

definition scripted_env :: "(nat \<Rightarrow> HNSRequest \<Rightarrow> HNSResponse) \<Rightarrow> Pod list \<times> string option \<Rightarrow> nat env" where
  "scripted_env script pods =
     \<lparr>InvokeHNSRequestFunc = (\<lambda>req n. (script n req, Suc n)), ListPods = (\<lambda>n. (pods, n))\<rparr>"

definition start :: "nat world" where
  "start = \<lparr>ext = 0, trace = []\<rparr>"

definition twice_failing :: "nat \<Rightarrow> HNSRequest \<Rightarrow> HNSResponse" where
  "twice_failing n req =
     (if n < 2 then \<lparr>Error = Some ''boom'', Response = Nil_bytes\<rparr>
      else \<lparr>Error = None, Response = Endpoints_bytes []\<rparr>)"

definition pod_endpoint :: HNSEndpoint where
  "pod_endpoint = \<lparr>Id' = ''testid'', IPAddress = ''10.0.0.5'', Policies = []\<rparr>"

definition visible_at_fourth :: "nat \<Rightarrow> HNSRequest \<Rightarrow> HNSResponse" where
  "visible_at_fourth n req =
     (if n < 3 then \<lparr>Error = None, Response = Endpoints_bytes []\<rparr>
      else \<lparr>Error = None, Response = Endpoints_bytes [pod_endpoint]\<rparr>)"

definition never_visible :: "nat \<Rightarrow> HNSRequest \<Rightarrow> HNSResponse" where
  "never_visible n req = \<lparr>Error = None, Response = Endpoints_bytes []\<rparr>"

definition always_failing :: "nat \<Rightarrow> HNSRequest \<Rightarrow> HNSResponse" where
  "always_failing n req = \<lparr>Error = Some ''boom'', Response = Nil_bytes\<rparr>"

definition always_ok :: "nat \<Rightarrow> HNSRequest \<Rightarrow> HNSResponse" where
  "always_ok n req = \<lparr>Error = None, Response = Nil_bytes\<rparr>"

subsection \<open>A server and some pods\<close>

definition this_server :: Server where
  "this_server = \<lparr>NodeName = ''node-1'', HostIP = ''10.0.0.1'', MetadataIP = ''169.254.169.254'',
     MetadataPort = ''80'', NMIPort = ''8429'', Initialized = False\<rparr>"

definition pod_without_ip :: Pod where
  "pod_without_ip = \<lparr>UID = ''uid-a'', Name = ''a'', Spec_NodeName = ''node-1'',
     Status_PodIP = [], Status_HostIP = ''10.0.0.1''\<rparr>"

definition pod_on_host_network :: Pod where
  "pod_on_host_network = \<lparr>UID = ''uid-b'', Name = ''b'', Spec_NodeName = ''node-1'',
     Status_PodIP = ''10.0.0.1'', Status_HostIP = ''10.0.0.1''\<rparr>"

definition pod_elsewhere :: Pod where
  "pod_elsewhere = \<lparr>UID = ''uid-c'', Name = ''c'', Spec_NodeName = ''node-2'',
     Status_PodIP = ''10.0.1.7'', Status_HostIP = ''10.0.1.1''\<rparr>"

definition pod_in_scope :: Pod where
  "pod_in_scope = \<lparr>UID = ''uid-d'', Name = ''d'', Spec_NodeName = ''node-1'',
     Status_PodIP = ''10.0.0.5'', Status_HostIP = ''10.0.0.1''\<rparr>"

definition pod_moved :: Pod where
  "pod_moved = pod_in_scope\<lparr>Status_PodIP := ''10.0.0.9''\<rparr>"

subsection \<open>Nodes and markers\<close>

definition hcn_marker :: Taint where
  "hcn_marker = \<lparr>Key = ''hcnagentfailed'', Taint_Value = [], Effect = ''NoSchedule''\<rparr>"

definition other_marker :: Taint where
  "other_marker = \<lparr>Key = ''node.kubernetes.io/unreachable'', Taint_Value = [],
                    Effect = ''NoExecute''\<rparr>"

definition marked_node :: Node where
  "marked_node = \<lparr>Node_Name = ''node-1'', Taints = [other_marker, hcn_marker]\<rparr>"

definition backend_down :: HNSResponse where
  "backend_down = \<lparr>Error = Some ''boom'', Response = Nil_bytes\<rparr>"

subsection \<open>Policy entries\<close>

definition metadata_ip :: string where
  "metadata_ip = ''169.254.169.254''"

definition redirect_a :: raw_message where
  "redirect_a = JSON (JObject [(''Type'', JString ''PROXY''), (''IP'', JString ''169.254.169.254''),
     (''Port'', JString ''80''), (''Destination'', JString ''10.0.0.1:8429'')])"

definition redirect_b :: raw_message where
  "redirect_b = JSON (JObject [(''Type'', JString ''PROXY''), (''IP'', JString ''169.254.169.254''),
     (''Port'', JString ''80''), (''Destination'', JString ''10.0.0.1:8430'')])"

definition unrelated :: raw_message where
  "unrelated = JSON (JObject [(''Type'', JString ''PROXY''), (''IP'', JString ''10.96.0.10''),
     (''Port'', JString ''53''), (''Destination'', JString ''10.0.0.1:5353'')])"

definition mistyped_redirect :: raw_message where
  "mistyped_redirect = JSON (JObject [(''Type'', JString ''PROXY''),
     (''IP'', JString ''169.254.169.254''), (''Port'', JNumber ''80'')])"

definition acl_entry :: raw_message where
  "acl_entry = JSON (JObject [(''Type'', JString ''ACL''), (''Action'', JString ''Allow''),
     (''Direction'', JString ''Out'')])"

definition crowded_endpoint :: HNSEndpoint where
  "crowded_endpoint = \<lparr>Id' = ''testid'', IPAddress = ''10.0.0.5'',
     Policies = [redirect_a, redirect_a, redirect_a, redirect_b, unrelated]\<rparr>"

section \<open>The policy editor: the removal loop\<close>

lemma upd_run_0: "upd_run T ps 0 = upd_init ps"
  by (simp add: upd_run_def)

lemma upd_run_Suc: "upd_run T ps (Suc k) = upd_step T k (upd_run T ps k)"
  by (simp add: upd_run_def)

lemma updateEndpointPolicies_run:
  "updateEndpointPolicies ps T = take (len (upd_run T ps (length ps))) (arr (upd_run T ps (length ps)))"
  by (simp add: updateEndpointPolicies_def upd_run_def Let_def)

lemma upd_step_miss:
  assumes "\<not> hits T (arr s ! i) (proxyPolicy s)"
  shows "upd_step T i s = s\<lparr>proxyPolicy := snd (json_Unmarshal (arr s ! i) (proxyPolicy s))\<rparr>"
  using assms by (auto simp: upd_step_def hits_def Let_def split_beta)

lemma upd_step_hit:
  assumes "hits T (arr s ! i) (proxyPolicy s)"
  shows "upd_step T i s =
           s\<lparr>arr := append_delete (arr s) (len s) (nat (int i - (count s + 1))),
             len := len s - 1, count := count s + 1, index := int i - (count s + 1),
             proxyPolicy := snd (json_Unmarshal (arr s ! i) (proxyPolicy s))\<rparr>"
  using assms by (auto simp: upd_step_def hits_def Let_def split_beta)

lemma length_append_delete:
  assumes "i < n" "n \<le> length a"
  shows "length (append_delete a n i) = length a"
  using assms by (simp add: append_delete_def)

lemma nth_append_delete:
  assumes "i < n" "n \<le> length a" "k < length a"
  shows "append_delete a n i ! k =
           (if k < i then a ! k else if k < n - 1 then a ! Suc k else a ! k)"
  using assms by (auto simp: append_delete_def nth_append)

text \<open>
  The slice expressions of the removal stay in range: \<open>count + 1\<close> is the number of
  removals so far, so \<open>index = i - count\<close> lies in \<open>0 \<dots> len - 1\<close> at every removal.
\<close>

lemma upd_run_bounds:
  assumes "k \<le> length ps"
  shows "length (arr (upd_run T ps k)) = length ps
       \<and> int (len (upd_run T ps k)) + (count (upd_run T ps k) + 1) = int (length ps)
       \<and> 0 \<le> count (upd_run T ps k) + 1 \<and> count (upd_run T ps k) + 1 \<le> int k"
  using assms
proof (induction k)
  case 0
  show ?case by (simp add: upd_run_0 upd_init_def)
next
  case (Suc k)
  let ?s = "upd_run T ps k"
  from Suc have IH: "length (arr ?s) = length ps"
    "int (len ?s) + (count ?s + 1) = int (length ps)" "0 \<le> count ?s + 1" "count ?s + 1 \<le> int k"
    and k: "k < length ps"
    by simp_all
  show ?case
  proof (cases "hits T (arr ?s ! k) (proxyPolicy ?s)")
    case False
    with IH show ?thesis by (simp add: upd_run_Suc upd_step_miss)
  next
    case True
    have ix: "nat (int k - (count ?s + 1)) < len ?s" "len ?s \<le> length (arr ?s)"
      using IH k by linarith+
    with IH k True show ?thesis
      by (simp add: upd_run_Suc upd_step_hit length_append_delete)
  qed
qed

lemma removal_index_in_range:
  assumes "i < length ps" and "s = upd_run T ps i"
  shows "0 \<le> int i - (count s + 1) \<and> nat (int i - (count s + 1)) + 1 \<le> len s
         \<and> len s \<le> length (arr s)"
  using upd_run_bounds [of i ps T] assms by auto


subsection \<open>The decoder\<close>

text \<open>
  Three readings of encoding/json at small inputs: \<^verbatim>\<open>null\<close> is no error and stores
  nothing; a member's name matches a field's name in any case; a member of the wrong type
  is an error that leaves the other members stored.
\<close>

lemma json_Unmarshal_null:
  "json_Unmarshal (JSON JNull) pp = (True, pp)"
  by simp

lemma json_Unmarshal_folds_names:
  "json_Unmarshal (JSON (JObject [(''ip'', JString ''10.0.0.7'')])) zero_ProxyPolicy
     = (True, zero_ProxyPolicy\<lparr>IP := ''10.0.0.7''\<rparr>)"
  by code_simp

lemma json_Unmarshal_wrong_type:
  "json_Unmarshal mistyped_redirect zero_ProxyPolicy
     = (False, zero_ProxyPolicy\<lparr>Type := ''PROXY'', IP := ''169.254.169.254''\<rparr>)"
  by code_simp

text \<open>
  Whether a member is an error does not depend on the state before it, and a member
  either leaves field \<^verbatim>\<open>IP\<close> as it was or stores one and the same address whatever was
  there. Both carry over to an object and to any entry.
\<close>

lemma store_typed: "fst (store f v pp) = fst (store f v pp')"
  by (cases f; cases v) (simp_all add: store_string_def)

lemma store_IP:
  "IP (snd (store f v pp)) = IP pp \<or> (\<forall>pp'. IP (snd (store f v pp')) = IP (snd (store f v pp)))"
  by (cases f; cases v) (simp_all add: store_string_def)

lemma decode_member_typed:
  "fst (decode_member m st) = (fst st \<and> fst (decode_member m (True, pp0)))"
proof (cases "field_of_name (fst m)")
  case None
  then show ?thesis by (simp add: decode_member_def)
next
  case (Some f)
  with store_typed [of f "snd m" "snd st" pp0] show ?thesis
    by (simp add: decode_member_def split_beta)
qed

lemma decode_member_IP:
  "IP (snd (decode_member m st)) = IP (snd st)
   \<or> (\<forall>st'. IP (snd (decode_member m st')) = IP (snd (decode_member m st)))"
proof (cases "field_of_name (fst m)")
  case None
  then show ?thesis by (simp add: decode_member_def)
next
  case (Some f)
  with store_IP [of f "snd m" "snd st"] show ?thesis
    by (simp add: decode_member_def split_beta)
qed

lemma fold_decode_member_typed:
  "fst (fold decode_member ms st) = (fst st \<and> fst (fold decode_member ms (True, pp0)))"
proof (induction ms arbitrary: st pp0)
  case Nil
  show ?case by simp
next
  case (Cons m ms)
  obtain pp1 where pp1: "pp1 = snd (decode_member m (True, pp0))" by simp
  have a: "fst (fold decode_member ms (decode_member m st))
             = (fst (decode_member m st) \<and> fst (fold decode_member ms (True, pp1)))"
    by (rule Cons.IH)
  have b: "fst (fold decode_member ms (decode_member m (True, pp0)))
             = (fst (decode_member m (True, pp0)) \<and> fst (fold decode_member ms (True, pp1)))"
    by (rule Cons.IH)
  have c: "fst (decode_member m st) = (fst st \<and> fst (decode_member m (True, pp0)))"
    by (rule decode_member_typed)
  show ?case using a b c by simp
qed

lemma fold_decode_member_IP:
  "IP (snd (fold decode_member ms st)) = IP (snd st)
   \<or> (\<forall>st'. IP (snd (fold decode_member ms st')) = IP (snd (fold decode_member ms st)))"
proof (induction ms arbitrary: st)
  case Nil
  show ?case by simp
next
  case (Cons m ms)
  let ?r = "\<lambda>st. IP (snd (fold decode_member ms (decode_member m st)))"
  from Cons.IH [of "decode_member m st"]
  consider (kept) "?r st = IP (snd (decode_member m st))"
    | (fixed) "\<forall>st'. IP (snd (fold decode_member ms st')) = ?r st"
    by blast
  then have "?r st = IP (snd st) \<or> (\<forall>st'. ?r st' = ?r st)"
  proof cases
    case fixed
    have "?r st' = ?r st" for st'
      by (rule fixed [rule_format])
    then show ?thesis by blast
  next
    case kept
    from decode_member_IP [of m st]
    show ?thesis
    proof
      assume "IP (snd (decode_member m st)) = IP (snd st)"
      with kept show ?thesis by simp
    next
      assume m: "\<forall>st'. IP (snd (decode_member m st')) = IP (snd (decode_member m st))"
      have "?r st' = ?r st" for st'
      proof -
        from Cons.IH [of "decode_member m st'"]
        show ?thesis
        proof
          assume "?r st' = IP (snd (decode_member m st'))"
          with m [rule_format, of st'] kept show ?thesis by simp
        next
          assume f: "\<forall>st''. IP (snd (fold decode_member ms st'')) = ?r st'"
          show ?thesis by (rule f [rule_format, symmetric])
        qed
      qed
      then show ?thesis by blast
    qed
  qed
  then show ?case by simp
qed

lemma json_Unmarshal_err:
  "fst (json_Unmarshal p pp) = fst (json_Unmarshal p pp')"
proof (cases p)
  case (NotJSON x)
  then show ?thesis by simp
next
  case (JSON j)
  show ?thesis
  proof (cases j)
    case (JObject ms)
    from fold_decode_member_typed [of ms "(True, pp)" pp']
    show ?thesis by (simp add: JSON JObject)
  qed (simp_all add: JSON)
qed

lemma json_Unmarshal_IP:
  "IP (snd (json_Unmarshal p pp)) = IP pp
   \<or> (\<forall>pp'. IP (snd (json_Unmarshal p pp')) = IP (snd (json_Unmarshal p pp)))"
proof (cases p)
  case (NotJSON x)
  then show ?thesis by simp
next
  case (JSON j)
  show ?thesis
  proof (cases j)
    case (JObject ms)
    from fold_decode_member_IP [of ms "(True, pp)"]
    show ?thesis by (auto simp: JSON JObject)
  qed (simp_all add: JSON)
qed

lemma targets_stores: "targets T p \<Longrightarrow> stores T p"
  by (simp add: targets_def stores_def split_beta)

lemma not_stored_misses:
  assumes "\<not> stores T p" and "IP pp \<noteq> T"
  shows "\<not> hits T p pp \<and> IP (snd (json_Unmarshal p pp)) \<noteq> T"
proof -
  from json_Unmarshal_IP [of p pp]
  have "IP (snd (json_Unmarshal p pp)) \<noteq> T"
  proof
    assume "IP (snd (json_Unmarshal p pp)) = IP pp"
    with assms(2) show ?thesis by simp
  next
    assume "\<forall>pp'. IP (snd (json_Unmarshal p pp')) = IP (snd (json_Unmarshal p pp))"
    then have "IP (snd (json_Unmarshal p zero_ProxyPolicy)) = IP (snd (json_Unmarshal p pp))" ..
    with assms(1) show ?thesis by (simp add: stores_def)
  qed
  then show ?thesis by (simp add: hits_def split_beta)
qed

lemma target_hits:
  assumes "targets T p" and "T \<noteq> []"
  shows "hits T p pp"
proof -
  let ?z = zero_ProxyPolicy
  from assms(1) have ok: "fst (json_Unmarshal p ?z)" and ip: "IP (snd (json_Unmarshal p ?z)) = T"
    by (simp_all add: targets_def split_beta)
  from json_Unmarshal_err [of p pp ?z] ok have ok': "fst (json_Unmarshal p pp)" by simp
  from json_Unmarshal_IP [of p ?z]
  have "IP (snd (json_Unmarshal p pp)) = T"
  proof
    assume "IP (snd (json_Unmarshal p ?z)) = IP ?z"
    with ip assms(2) show ?thesis by (simp add: zero_ProxyPolicy_def)
  next
    assume "\<forall>pp'. IP (snd (json_Unmarshal p pp')) = IP (snd (json_Unmarshal p ?z))"
    then have "IP (snd (json_Unmarshal p pp)) = IP (snd (json_Unmarshal p ?z))" ..
    with ip show ?thesis by simp
  qed
  with ok' show ?thesis by (simp add: hits_def split_beta)
qed

subsection \<open>Where the removal is right\<close>

text \<open>
  The target address is not empty in what follows. As long as no entry read has stored
  the target address, the destination does not hold it and nothing is removed.
\<close>

lemma run_before_first_stored:
  assumes "T \<noteq> []" and "k \<le> length ps" and "\<forall>i<k. \<not> stores T (ps ! i)"
  shows "\<exists>pp. IP pp \<noteq> T \<and> upd_run T ps k = (upd_init ps)\<lparr>proxyPolicy := pp\<rparr>"
  using assms(2,3)
proof (induction k)
  case 0
  have "upd_run T ps 0 = (upd_init ps)\<lparr>proxyPolicy := zero_ProxyPolicy\<rparr>"
    by (simp add: upd_run_0 upd_init_def)
  moreover have "IP zero_ProxyPolicy \<noteq> T"
    using assms(1) by (simp add: zero_ProxyPolicy_def)
  ultimately show ?case by blast
next
  case (Suc k)
  then obtain pp where pp: "IP pp \<noteq> T" "upd_run T ps k = (upd_init ps)\<lparr>proxyPolicy := pp\<rparr>"
    by auto
  have p: "\<not> stores T (ps ! k)" using Suc.prems by simp
  let ?pp = "snd (json_Unmarshal (ps ! k) pp)"
  from not_stored_misses [OF p pp(1)]
  have miss: "\<not> hits T (ps ! k) pp" and q: "IP ?pp \<noteq> T" by simp_all
  have "upd_run T ps (Suc k) = (upd_init ps)\<lparr>proxyPolicy := ?pp\<rparr>"
    using miss by (simp add: upd_run_Suc pp(2) upd_step_miss upd_init_def)
  with q show ?case by blast
qed

text \<open>
  When no entry stores the target address, the collection is returned as it is.
\<close>

lemma updateEndpointPolicies_no_target:
  assumes "T \<noteq> []" and "\<forall>p\<in>set ps. \<not> stores T p"
  shows "updateEndpointPolicies ps T = ps"
proof -
  have "\<forall>i<length ps. \<not> stores T (ps ! i)" using assms(2) by simp
  from run_before_first_stored [OF assms(1) le_refl this]
  obtain pp where "upd_run T ps (length ps) = (upd_init ps)\<lparr>proxyPolicy := pp\<rparr>" by blast
  then show ?thesis
    by (simp add: updateEndpointPolicies_run upd_init_def)
qed

text \<open>
  The hypothesis is on what the entries store, not on what they are entries for: an entry
  that stores the target address and has a member of the wrong type is no entry for the
  address, and the entry without member \<^verbatim>\<open>IP\<close> behind it is removed.
\<close>

lemma updateEndpointPolicies_after_mistyped_entry:
  "updateEndpointPolicies [mistyped_redirect, acl_entry] metadata_ip = [mistyped_redirect]
   \<and> filter (targets metadata_ip) [mistyped_redirect, acl_entry] = []
   \<and> filter (stores metadata_ip) [mistyped_redirect, acl_entry] = [mistyped_redirect]"
  by code_simp

lemma updateEndpointPolicies_target_last:
  assumes "\<forall>p\<in>set r. \<not> stores T p" and "targets T p" and "T \<noteq> []"
  shows "updateEndpointPolicies (r @ [p]) T = r"
proof -
  let ?ps = "r @ [p]"
  have "\<forall>i<length r. \<not> stores T (?ps ! i)" using assms(1) by (simp add: nth_append)
  from run_before_first_stored [of T "length r" ?ps] this assms(3)
  obtain pp where pp: "upd_run T ?ps (length r) = (upd_init ?ps)\<lparr>proxyPolicy := pp\<rparr>"
    by auto
  have hit: "hits T (arr (upd_run T ?ps (length r)) ! length r)
                    (proxyPolicy (upd_run T ?ps (length r)))"
    using target_hits [OF assms(2,3)] by (simp add: pp upd_init_def)
  have "upd_run T ?ps (length ?ps) = upd_step T (length r) (upd_run T ?ps (length r))"
    by (simp add: upd_run_Suc)
  then show ?thesis
    unfolding updateEndpointPolicies_run
    by (simp add: upd_step_hit [OF hit]) (simp add: pp upd_init_def append_delete_def)
qed

lemma at_most_one:
  assumes "length (filter P xs) \<le> 1" and "i < length xs" and "j < length xs"
    and "P (xs ! i)" and "P (xs ! j)"
  shows "i = j"
  using assms
proof (induction xs arbitrary: i j)
  case Nil
  then show ?case by simp
next
  case (Cons x xs)
  have none: "P x \<Longrightarrow> k < length xs \<Longrightarrow> \<not> P (xs ! k)" for k
  proof
    assume "P x" "k < length xs" "P (xs ! k)"
    then have "xs ! k \<in> set (filter P xs)" by simp
    then have "filter P xs \<noteq> []" by (metis empty_iff empty_set)
    then have "length (filter P xs) \<ge> 1" by (cases "filter P xs") simp_all
    with Cons.prems(1) \<open>P x\<close> show False by simp
  qed
  show ?case
  proof (cases i)
    case 0
    with Cons.prems none show ?thesis by (cases j) auto
  next
    case (Suc i')
    show ?thesis
    proof (cases j)
      case 0
      with Cons.prems none Suc show ?thesis by auto
    next
      case (Suc j')
      have "length (filter P xs) \<le> 1" using Cons.prems(1) by (simp split: if_splits)
      from Cons.IH [OF this, of i' j'] Cons.prems \<open>i = Suc i'\<close> Suc show ?thesis by simp
    qed
  qed
qed

text \<open>
  With at most one entry that stores the target address, and that one an entry for it
  (it decodes without error), every cell that is still to be read or still in the
  collection stores another address, from the removal on.
\<close>

lemma run_clean:
  assumes "T \<noteq> []" and "length (filter (stores T) ps) \<le> 1"
    and "\<forall>p\<in>set ps. stores T p \<longrightarrow> targets T p" and "k \<le> length ps"
  shows "(\<forall>i<k. \<not> stores T (ps ! i)) \<or> clean T (upd_run T ps k) k"
  using assms(4)
proof (induction k)
  case 0
  show ?case by simp
next
  case (Suc k)
  let ?s = "upd_run T ps k"
  have k: "k < length ps" using Suc.prems by simp
  from upd_run_bounds [of k ps T] k
  have b: "length (arr ?s) = length ps" "int (len ?s) + (count ?s + 1) = int (length ps)"
    "0 \<le> count ?s + 1" "count ?s + 1 \<le> int k"
    by simp_all
  have ix: "nat (int k - (count ?s + 1)) < len ?s" "len ?s \<le> length (arr ?s)"
    using b k by linarith+
  from Suc have "(\<forall>i<k. \<not> stores T (ps ! i)) \<or> clean T ?s k" by simp
  then show ?case
  proof
    assume before: "\<forall>i<k. \<not> stores T (ps ! i)"
    from run_before_first_stored [of T k ps] before k assms(1)
    obtain pp where pp: "IP pp \<noteq> T" "?s = (upd_init ps)\<lparr>proxyPolicy := pp\<rparr>" by auto
    show ?thesis
    proof (cases "stores T (ps ! k)")
      case False
      with before have "\<forall>i<Suc k. \<not> stores T (ps ! i)" by (simp add: less_Suc_eq)
      then show ?thesis ..
    next
      case True
      have others: "\<not> stores T (ps ! j)" if "j < length ps" "j \<noteq> k" for j
        using at_most_one [OF assms(2) that(1) k] True that(2) by blast
      have "targets T (ps ! k)" using assms(3) k True by simp
      then have hit: "hits T (arr ?s ! k) (proxyPolicy ?s)"
        using target_hits [of T "ps ! k" pp] assms(1) by (simp add: pp(2) upd_init_def)
      have s: "arr ?s = ps" "len ?s = length ps" "count ?s = - 1"
        by (simp_all add: pp(2) upd_init_def)
      have "clean T (upd_run T ps (Suc k)) (Suc k)"
        unfolding clean_def upd_run_Suc upd_step_hit [OF hit]
        using k others
        by (auto simp: s length_append_delete nth_append_delete)
      then show ?thesis ..
    qed
  next
    assume c: "clean T ?s k"
    have "clean T (upd_run T ps (Suc k)) (Suc k)"
    proof (cases "hits T (arr ?s ! k) (proxyPolicy ?s)")
      case False
      with c show ?thesis
        by (auto simp: clean_def upd_run_Suc upd_step_miss)
    next
      case True
      show ?thesis
        unfolding clean_def upd_run_Suc upd_step_hit [OF True]
        using c ix b(1) k
        by (auto simp: clean_def length_append_delete nth_append_delete)
    qed
    then show ?thesis ..
  qed
qed

lemma updateEndpointPolicies_leaves_no_target:
  assumes "T \<noteq> []" and "length (filter (stores T) ps) \<le> 1"
    and "\<forall>p\<in>set ps. stores T p \<longrightarrow> targets T p"
  shows "\<forall>p\<in>set (updateEndpointPolicies ps T). \<not> stores T p \<and> \<not> targets T p"
proof -
  let ?s = "upd_run T ps (length ps)"
  have "\<forall>p\<in>set (updateEndpointPolicies ps T). \<not> stores T p"
    using run_clean [OF assms le_refl]
  proof
    assume "\<forall>i<length ps. \<not> stores T (ps ! i)"
    then have n: "\<forall>p\<in>set ps. \<not> stores T p" by (auto simp: in_set_conv_nth)
    with assms(1) show ?thesis by (simp add: updateEndpointPolicies_no_target)
  next
    assume c: "clean T ?s (length ps)"
    from upd_run_bounds [of "length ps" ps T]
    have b: "length (arr ?s) = length ps" "len ?s \<le> length ps" by auto
    show ?thesis
    proof
      fix p assume "p \<in> set (updateEndpointPolicies ps T)"
      then obtain k where "k < len ?s" "p = arr ?s ! k"
        using b by (auto simp: updateEndpointPolicies_run in_set_conv_nth)
      with c b show "\<not> stores T p" by (auto simp: clean_def)
    qed
  qed
  with targets_stores show ?thesis by blast
qed


lemma redirect_entry_is_marshalled:
  "json_Marshal_policy \<lparr>Type = Proxy, IP = T, Port = port, Destination = nmiIP @ '':'' @ nmiPort\<rparr>
     = Inr (redirect_entry T port nmiIP nmiPort)"
  by (simp add: json_Marshal_policy_def redirect_entry_def)

lemma field_of_name_IP: "field_of_name ''IP'' = Some IP_field"
  by (simp add: field_of_name_def byExactName_def)

lemma field_of_name_Type: "field_of_name ''Type'' = Some Type_field"
  by (simp add: field_of_name_def byExactName_def)

lemma field_of_name_Port: "field_of_name ''Port'' = Some Port_field"
  by (simp add: field_of_name_def byExactName_def)

lemma field_of_name_Destination: "field_of_name ''Destination'' = Some Destination_field"
  by (simp add: field_of_name_def byExactName_def)

lemma redirect_entry_targets:
  assumes "T \<noteq> []"
  shows "targets T (redirect_entry T port nmiIP nmiPort)"
  using assms
  by (simp add: targets_def redirect_entry_def omitempty_def decode_member_def
      field_of_name_IP field_of_name_Type field_of_name_Port field_of_name_Destination
      store_string_def)

lemma Policies_addEndpointPolicy:
  "Policies (snd (fst (addEndpointPolicy env endpoint T port nmiIP nmiPort w))) =
     updateEndpointPolicies (Policies endpoint) T @ [redirect_entry T port nmiIP nmiPort]"
  unfolding addEndpointPolicy_def Let_def redirect_entry_is_marshalled
  by (simp add: split_beta split: sum.split)

text \<open>
  On an endpoint with at most one entry that stores the target address (which is not
  empty), that one an entry for it, applying twice leaves exactly one entry for the
  address, the new one, at the end.
\<close>

lemma addEndpointPolicy_twice_one_entry:
  assumes "T \<noteq> []" and "length (filter (stores T) (Policies endpoint)) \<le> 1"
    and "\<forall>p\<in>set (Policies endpoint). stores T p \<longrightarrow> targets T p"
  shows "Policies (addEndpointPolicy_twice env endpoint T port nmiIP nmiPort w) =
           updateEndpointPolicies (Policies endpoint) T @ [redirect_entry T port nmiIP nmiPort]
       \<and> filter (targets T) (Policies (addEndpointPolicy_twice env endpoint T port nmiIP nmiPort w))
           = [redirect_entry T port nmiIP nmiPort]"
proof -
  let ?r = "updateEndpointPolicies (Policies endpoint) T"
  let ?q = "redirect_entry T port nmiIP nmiPort"
  let ?A = "addEndpointPolicy env endpoint T port nmiIP nmiPort w"
  have r: "\<forall>p\<in>set ?r. \<not> stores T p \<and> \<not> targets T p"
    using assms by (rule updateEndpointPolicies_leaves_no_target)
  have q: "targets T ?q"
    using assms(1) by (rule redirect_entry_targets)
  have "Policies (addEndpointPolicy_twice env endpoint T port nmiIP nmiPort w) =
          Policies (snd (fst (addEndpointPolicy env (snd (fst ?A)) T port nmiIP nmiPort (snd ?A))))"
    by (simp add: addEndpointPolicy_twice_def split_beta)
  also have "\<dots> = updateEndpointPolicies (?r @ [?q]) T @ [?q]"
    by (simp add: Policies_addEndpointPolicy)
  also have "\<dots> = ?r @ [?q]"
    using r q assms(1) by (simp add: updateEndpointPolicies_target_last)
  finally have eq: "Policies (addEndpointPolicy_twice env endpoint T port nmiIP nmiPort w) = ?r @ [?q]" .
  moreover have "filter (targets T) (?r @ [?q]) = [?q]"
    using r q by (simp add: filter_empty_conv)
  ultimately show ?thesis by simp
qed

section \<open>The policy editor: entries removed and entries kept\<close>

text \<open>
  Claim C2, at two inputs. With two entries for the metadata address in front of an entry
  for another address, the entry read in the second round is the one that the first
  removal moved into cell 1, so the second entry for the metadata address stays. With the
  entry for the other address between the two, the second and the third round both read
  the last entry and remove what stands in front of it: the entry for the other address
  is removed.
\<close>

theorem updateEndpointPolicies_skips_and_removes_others:
  "updateEndpointPolicies [redirect_a, redirect_b, unrelated] metadata_ip = [redirect_b, unrelated]
   \<and> updateEndpointPolicies [redirect_a, unrelated, redirect_b] metadata_ip = []
   \<and> filter (\<lambda>p. \<not> targets metadata_ip p) [redirect_a, redirect_b, unrelated] = [unrelated]
   \<and> filter (\<lambda>p. \<not> targets metadata_ip p) [redirect_a, unrelated, redirect_b] = [unrelated]"
  by code_simp

text \<open>
  The destination of the decoding is one variable for all rounds, and decoding an object
  leaves the fields alone that the object does not name. An entry without member \<^verbatim>\<open>IP\<close>
  that follows an entry for the metadata address is therefore taken for one too.
\<close>

lemma updateEndpointPolicies_removes_entry_without_IP:
  "updateEndpointPolicies [redirect_a, acl_entry] metadata_ip = []
   \<and> filter (\<lambda>p. \<not> targets metadata_ip p) [redirect_a, acl_entry] = [acl_entry]"
  by code_simp

text \<open>
  Claim C1, at an endpoint that holds four entries for the metadata address and one for
  another address. The first apply leaves two of the four and appends the new entry; the
  second removes one of the two, the entry for the other address and the entry appended
  before, and appends again. Two entries for the metadata address remain.
\<close>

theorem addEndpointPolicy_twice_leaves_two:
  "Policies (addEndpointPolicy_twice (scripted_env always_ok ([], None)) crowded_endpoint
               metadata_ip ''80'' ''10.0.0.1'' ''8429'' start) = [redirect_b, redirect_a]
   \<and> filter (targets metadata_ip) [redirect_b, redirect_a] = [redirect_b, redirect_a]"
  by code_simp

section \<open>The gateway: bounded retry\<close>

declare callHcnProxyAgent_loop.simps [simp del]
declare getEndpointByIP_loop.simps [simp del]

lemma internal_after:
  "callHcnProxyAgentInternal env req (before_attempt env req w k) =
     (case Error (attempt env req (ext w) k) of
        Some e \<Rightarrow> Inl e | None \<Rightarrow> Inr (Response (attempt env req (ext w) k)),
      after_attempt env req w k)"
  by (simp add: callHcnProxyAgentInternal_def before_attempt_def after_attempt_def attempt_def
      emit_def split_beta split: option.splits)

lemma sleep_after:
  "time_Sleep (2 ^ k) (after_attempt env req w k) = before_attempt env req w (Suc k)"
  by (simp add: time_Sleep_def emit_def before_attempt_def after_attempt_def retries_trace_def)

lemma loop_retry:
  assumes "Error (attempt env req (ext w) k) \<noteq> None" "k < 4"
  shows "callHcnProxyAgent_loop env req (int k + 1) (2 ^ k) (before_attempt env req w k) =
         callHcnProxyAgent_loop env req (int (Suc k) + 1) (2 ^ Suc k) (before_attempt env req w (Suc k))"
  using assms
  by (subst callHcnProxyAgent_loop.simps)
     (auto simp: internal_after maxRetryCount_def sleep_after mult.commute)

lemma loop_reaches:
  assumes "\<forall>j<k. Error (attempt env req (ext w) j) \<noteq> None" "k \<le> 4"
  shows "callHcnProxyAgent env req w =
         callHcnProxyAgent_loop env req (int k + 1) (2 ^ k) (before_attempt env req w k)"
  using assms
proof (induction k)
  case 0
  show ?case by (simp add: callHcnProxyAgent_def before_attempt_def retries_trace_def)
next
  case (Suc k)
  then have "callHcnProxyAgent env req w =
      callHcnProxyAgent_loop env req (int k + 1) (2 ^ k) (before_attempt env req w k)"
    by simp
  also have "\<dots> = callHcnProxyAgent_loop env req (int (Suc k) + 1) (2 ^ Suc k)
                     (before_attempt env req w (Suc k))"
    using Suc.prems by (intro loop_retry) auto
  finally show ?case .
qed

lemma loop_success:
  assumes "Error (attempt env req (ext w) k) = None"
  shows "callHcnProxyAgent_loop env req rc sf (before_attempt env req w k) =
         (Inr (Response (attempt env req (ext w) k)), after_attempt env req w k)"
  using assms by (subst callHcnProxyAgent_loop.simps) (simp add: internal_after)

lemma loop_give_up:
  assumes "Error (attempt env req (ext w) k) = Some e" "rc > 4"
  shows "callHcnProxyAgent_loop env req rc sf (before_attempt env req w k) =
         (Inl e, after_attempt env req w k)"
  using assms by (subst callHcnProxyAgent_loop.simps) (simp add: internal_after maxRetryCount_def)

lemma gateway_result:
  assumes "k \<le> 4" and "\<forall>j<k. Error (attempt env req (ext w) j) \<noteq> None"
  shows "(Error (attempt env req (ext w) k) = None \<longrightarrow>
            callHcnProxyAgent env req w =
              (Inr (Response (attempt env req (ext w) k)), after_attempt env req w k))
       \<and> (k = 4 \<longrightarrow> (\<forall>e. Error (attempt env req (ext w) 4) = Some e \<longrightarrow>
            callHcnProxyAgent env req w = (Inl e, after_attempt env req w 4)))"
proof -
  have reach: "callHcnProxyAgent env req w =
      callHcnProxyAgent_loop env req (int k + 1) (2 ^ k) (before_attempt env req w k)"
    using assms by (intro loop_reaches) auto
  show ?thesis
    by (auto simp: reach loop_success loop_give_up)
qed

lemma gateway_five_attempts_trace:
  "trace (after_attempt env req w 4) = trace w @
     [Invoke req, Sleep 1, Invoke req, Sleep 2, Invoke req, Sleep 4, Invoke req, Sleep 8,
      Invoke req]"
  by (simp add: after_attempt_def retries_trace_def upt_rec)

lemma gateway_stops_within_five:
  "\<exists>n\<le>4. snd (callHcnProxyAgent env req w) = after_attempt env req w n"
proof (cases "\<exists>j\<le>4. Error (attempt env req (ext w) j) = None")
  case True
  define k where "k = (LEAST j. j \<le> 4 \<and> Error (attempt env req (ext w) j) = None)"
  have k: "k \<le> 4" "Error (attempt env req (ext w) k) = None"
    using LeastI_ex [OF True] by (auto simp: k_def)
  have before: "\<forall>j<k. Error (attempt env req (ext w) j) \<noteq> None"
  proof (intro allI impI)
    fix j assume "j < k"
    then have "\<not> (j \<le> 4 \<and> Error (attempt env req (ext w) j) = None)"
      unfolding k_def by (rule not_less_Least)
    with \<open>j < k\<close> k(1) show "Error (attempt env req (ext w) j) \<noteq> None" by simp
  qed
  from gateway_result [OF k(1) before] k(2)
  have "snd (callHcnProxyAgent env req w) = after_attempt env req w k" by simp
  with k(1) show ?thesis by blast
next
  case False
  then have all: "\<forall>j<4. Error (attempt env req (ext w) j) \<noteq> None"
    and last: "Error (attempt env req (ext w) 4) \<noteq> None"
    by auto
  from last obtain e where e: "Error (attempt env req (ext w) 4) = Some e" by auto
  from gateway_result [OF le_refl all] e
  have "snd (callHcnProxyAgent env req w) = after_attempt env req w 4" by simp
  then show ?thesis by blast
qed

text \<open>
  Claim C3. If the first \<open>k \<le> 4\<close> attempts of the raw call fail and the next succeeds, the
  gateway returns the response of that attempt; between the attempts it has slept
  1, 2, 4, ... seconds (\<open>2 ^ j\<close> after attempt \<open>j\<close>, see \<open>after_attempt\<close>). If the fifth
  attempt fails too, the gateway returns the error of that attempt as it is, after the
  sleeps 1, 2, 4, 8. In every case the gateway stops after at most five attempts.
\<close>

theorem callHcnProxyAgent_bounded_retry:
  "(k \<le> 4 \<and> (\<forall>j<k. Error (attempt env req (ext w) j) \<noteq> None) \<longrightarrow>
      (Error (attempt env req (ext w) k) = None \<longrightarrow>
         callHcnProxyAgent env req w =
           (Inr (Response (attempt env req (ext w) k)), after_attempt env req w k))
    \<and> (k = 4 \<longrightarrow> (\<forall>e. Error (attempt env req (ext w) 4) = Some e \<longrightarrow>
         callHcnProxyAgent env req w = (Inl e, after_attempt env req w 4))))
   \<and> trace (after_attempt env req w 4) = trace w @
        [Invoke req, Sleep 1, Invoke req, Sleep 2, Invoke req, Sleep 4, Invoke req, Sleep 8,
         Invoke req]
   \<and> (\<exists>n\<le>4. snd (callHcnProxyAgent env req w) = after_attempt env req w n)"
proof (intro conjI)
  show "k \<le> 4 \<and> (\<forall>j<k. Error (attempt env req (ext w) j) \<noteq> None) \<longrightarrow>
      (Error (attempt env req (ext w) k) = None \<longrightarrow>
         callHcnProxyAgent env req w =
           (Inr (Response (attempt env req (ext w) k)), after_attempt env req w k))
    \<and> (k = 4 \<longrightarrow> (\<forall>e. Error (attempt env req (ext w) 4) = Some e \<longrightarrow>
         callHcnProxyAgent env req w = (Inl e, after_attempt env req w 4)))"
    using gateway_result [of k env req w] by blast
  show "trace (after_attempt env req w 4) = trace w @
        [Invoke req, Sleep 1, Invoke req, Sleep 2, Invoke req, Sleep 4, Invoke req, Sleep 8,
         Invoke req]"
    by (rule gateway_five_attempts_trace)
  show "\<exists>n\<le>4. snd (callHcnProxyAgent env req w) = after_attempt env req w n"
    by (rule gateway_stops_within_five)
qed

theorem callHcnProxyAgent_bounded_retry_witness:
  "callHcnProxyAgent (scripted_env twice_failing ([], None)) enumerate_request start =
     (Inr (Endpoints_bytes []),
      \<lparr>ext = 3, trace = [Invoke enumerate_request, Sleep 1, Invoke enumerate_request, Sleep 2,
                         Invoke enumerate_request]\<rparr>)"
proof -
  let ?env = "scripted_env twice_failing ([], None)"
  have h: "(2::nat) \<le> 4 \<and> (\<forall>j<2. Error (attempt ?env enumerate_request (ext start) j) \<noteq> None)"
    by code_simp
  have h3: "Error (attempt ?env enumerate_request (ext start) 2) = None"
    by code_simp
  note T = callHcnProxyAgent_bounded_retry [of 2 ?env enumerate_request start]
  have "callHcnProxyAgent ?env enumerate_request start =
          (Inr (Response (attempt ?env enumerate_request (ext start) 2)),
           after_attempt ?env enumerate_request start 2)"
    by (rule mp [OF conjunct1 [OF mp [OF conjunct1 [OF T] h]] h3])
  also have "\<dots> = (Inr (Endpoints_bytes []),
      \<lparr>ext = 3, trace = [Invoke enumerate_request, Sleep 1, Invoke enumerate_request, Sleep 2,
                         Invoke enumerate_request]\<rparr>)"
    by code_simp
  finally show ?thesis .
qed

section \<open>The locator: two tiers of retry\<close>

lemma locator_retry:
  assumes "scan ip (fst (enumeration env w k)) = No_match" "k < 4"
  shows "getEndpointByIP_loop env ip (int k + 1) (2 ^ k) (before_enumeration env w k) =
         getEndpointByIP_loop env ip (int (Suc k) + 1) (2 ^ Suc k) (before_enumeration env w (Suc k))"
  using assms
  by (subst getEndpointByIP_loop.simps)
     (auto simp: scan_def enumeration_def maxRetryCount_def split_beta mult.commute
           split: sum.splits option.splits)

lemma locator_reaches:
  assumes "\<forall>j<k. scan ip (fst (enumeration env w j)) = No_match" "k \<le> 4"
  shows "getEndpointByIP env ip w =
         getEndpointByIP_loop env ip (int k + 1) (2 ^ k) (before_enumeration env w k)"
  using assms
proof (induction k)
  case 0
  show ?case by (simp add: getEndpointByIP_def)
next
  case (Suc k)
  then have "getEndpointByIP env ip w =
      getEndpointByIP_loop env ip (int k + 1) (2 ^ k) (before_enumeration env w k)"
    by simp
  also have "\<dots> = getEndpointByIP_loop env ip (int (Suc k) + 1) (2 ^ Suc k)
                     (before_enumeration env w (Suc k))"
    using Suc.prems by (intro locator_retry) auto
  finally show ?case .
qed

lemma locator_round:
  "getEndpointByIP_loop env ip rc sf (before_enumeration env w k) =
     (case scan ip (fst (enumeration env w k)) of
        Gateway_error e \<Rightarrow> (Inl \<lparr>errType = InvalidOperation, err = e\<rparr>, snd (enumeration env w k))
      | Decode_error e \<Rightarrow> (Inl \<lparr>errType = InvalidOperation, err = e\<rparr>, snd (enumeration env w k))
      | Found ep \<Rightarrow> (Inr ep, snd (enumeration env w k))
      | No_match \<Rightarrow>
          if rc > 4 then (Inl \<lparr>errType = NotFound, err = no_endpoint_found ip\<rparr>, snd (enumeration env w k))
          else getEndpointByIP_loop env ip (rc + 1) (sf * 2) (time_Sleep sf (snd (enumeration env w k))))"
  by (subst getEndpointByIP_loop.simps)
     (auto simp: scan_def enumeration_def maxRetryCount_def split_beta
           split: sum.splits option.splits)

lemma NotFound_neq_InvalidOperation:
  "NotFound \<noteq> InvalidOperation" "InvalidOperation \<noteq> NotFound"
  by (simp_all add: NotFound_def InvalidOperation_def)

lemma locator_NotFound_only_exhausted:
  assumes "fst (getEndpointByIP env ip w) = Inl e" "errType e = NotFound"
  shows "\<forall>j\<le>4. scan ip (fst (enumeration env w j)) = No_match"
proof (rule ccontr)
  assume "\<not> ?thesis"
  then have ex: "\<exists>j. j \<le> 4 \<and> scan ip (fst (enumeration env w j)) \<noteq> No_match" by blast
  define k where "k = (LEAST j. j \<le> 4 \<and> scan ip (fst (enumeration env w j)) \<noteq> No_match)"
  have k: "k \<le> 4" "scan ip (fst (enumeration env w k)) \<noteq> No_match"
    using LeastI_ex[OF ex] by (auto simp: k_def)
  have before: "\<forall>j<k. scan ip (fst (enumeration env w j)) = No_match"
  proof (intro allI impI)
    fix j assume "j < k"
    then have "\<not> (j \<le> 4 \<and> scan ip (fst (enumeration env w j)) \<noteq> No_match)"
      unfolding k_def by (rule not_less_Least)
    with \<open>j < k\<close> k(1) show "scan ip (fst (enumeration env w j)) = No_match" by simp
  qed
  have "getEndpointByIP env ip w =
        getEndpointByIP_loop env ip (int k + 1) (2 ^ k) (before_enumeration env w k)"
    using before k(1) by (rule locator_reaches)
  with k(2) assms show False
    by (cases "scan ip (fst (enumeration env w k))")
       (auto simp: locator_round NotFound_neq_InvalidOperation)
qed

text \<open>
  Claim C4. Let the first \<open>k \<le> 4\<close> enumerations succeed, decode and hold no endpoint with
  the IP looked for (the locator sleeps \<open>2 ^ j\<close> seconds after enumeration \<open>j\<close>). If the next
  call of the gateway fails, or its response does not decode, the locator returns an
  \<open>InvalidOperation\<close> error at once; if the response holds an endpoint with that IP, the
  locator returns it at once; if it is the fifth enumeration and again holds no match,
  the locator returns a \<open>NotFound\<close> error. Conversely, a \<open>NotFound\<close> error is returned only
  when all five enumerations succeeded without a match.
\<close>

theorem getEndpointByIP_two_tier:
  "(k \<le> 4 \<and> (\<forall>j<k. scan ip (fst (enumeration env w j)) = No_match) \<longrightarrow>
      (\<forall>e. scan ip (fst (enumeration env w k)) = Gateway_error e \<longrightarrow>
         getEndpointByIP env ip w =
           (Inl \<lparr>errType = InvalidOperation, err = e\<rparr>, snd (enumeration env w k)))
    \<and> (\<forall>e. scan ip (fst (enumeration env w k)) = Decode_error e \<longrightarrow>
         getEndpointByIP env ip w =
           (Inl \<lparr>errType = InvalidOperation, err = e\<rparr>, snd (enumeration env w k)))
    \<and> (\<forall>ep. scan ip (fst (enumeration env w k)) = Found ep \<longrightarrow>
         getEndpointByIP env ip w = (Inr ep, snd (enumeration env w k)))
    \<and> (k = 4 \<and> scan ip (fst (enumeration env w k)) = No_match \<longrightarrow>
         getEndpointByIP env ip w =
           (Inl \<lparr>errType = NotFound, err = no_endpoint_found ip\<rparr>, snd (enumeration env w 4))))
   \<and> (\<forall>e. fst (getEndpointByIP env ip w) = Inl e \<and> errType e = NotFound \<longrightarrow>
         (\<forall>j\<le>4. scan ip (fst (enumeration env w j)) = No_match))"
proof (intro conjI impI allI)
  fix e assume "fst (getEndpointByIP env ip w) = Inl e \<and> errType e = NotFound"
  then show "\<And>j. j \<le> 4 \<Longrightarrow> scan ip (fst (enumeration env w j)) = No_match"
    using locator_NotFound_only_exhausted by blast
qed (auto simp: locator_reaches locator_round)

theorem getEndpointByIP_two_tier_witness:
  "getEndpointByIP (scripted_env visible_at_fourth ([], None)) ''10.0.0.5'' start =
     (Inr pod_endpoint,
      \<lparr>ext = 4, trace = [Invoke enumerate_request, Sleep 1, Invoke enumerate_request, Sleep 2,
                         Invoke enumerate_request, Sleep 4, Invoke enumerate_request]\<rparr>)"
proof -
  let ?env = "scripted_env visible_at_fourth ([], None)"
  have h1: "(3::nat) \<le> 4" by simp
  have h2: "\<forall>j<3. scan ''10.0.0.5'' (fst (enumeration ?env start j)) = No_match"
    by code_simp
  have h3: "scan ''10.0.0.5'' (fst (enumeration ?env start 3)) = Found pod_endpoint"
    by code_simp
  from getEndpointByIP_two_tier [of 3 "''10.0.0.5''" ?env start] h1 h2 h3
  have "getEndpointByIP ?env ''10.0.0.5'' start = (Inr pod_endpoint, snd (enumeration ?env start 3))"
    by blast
  also have "snd (enumeration ?env start 3) =
      \<lparr>ext = 4, trace = [Invoke enumerate_request, Sleep 1, Invoke enumerate_request, Sleep 2,
                         Invoke enumerate_request, Sleep 4, Invoke enumerate_request]\<rparr>"
    by code_simp
  finally show ?thesis .
qed

section \<open>Apply and delete: an endpoint that is not found\<close>

lemma classification_distinct:
  "NotFound \<noteq> UnKnown" "NotFound \<noteq> []" "InvalidOperation \<noteq> NotFound"
  by (simp_all add: NotFound_def UnKnown_def InvalidOperation_def)

lemma Apply_empty_podIP:
  "ApplyEndpointRoutePolicy env [] metadataIP metadataPort nmiIP nmiPort w =
     ((Some ''Missing IP Address'', NotFound), emit (Apply_entered []) w)"
  by (simp add: ApplyEndpointRoutePolicy_def)

lemma Delete_empty_podIP:
  "DeleteEndpointRoutePolicy env [] metadataIP w =
     ((Some ''Missing IP Address'', NotFound), emit (Delete_entered []) w)"
  by (simp add: DeleteEndpointRoutePolicy_def)

lemma Apply_locator_NotFound:
  assumes "podIP \<noteq> []"
    and "fst (getEndpointByIP env podIP (emit (Apply_entered podIP) w)) = Inl e"
    and "errType e = NotFound"
  shows "ApplyEndpointRoutePolicy env podIP metadataIP metadataPort nmiIP nmiPort w =
           ((None, []), snd (getEndpointByIP env podIP (emit (Apply_entered podIP) w)))"
  using assms
  by (simp add: ApplyEndpointRoutePolicy_def split_beta classification_distinct[symmetric])

lemma Delete_locator_NotFound:
  assumes "podIP \<noteq> []"
    and "fst (getEndpointByIP env podIP (emit (Delete_entered podIP) w)) = Inl e"
    and "errType e = NotFound"
  shows "DeleteEndpointRoutePolicy env podIP metadataIP w =
           ((None, []), snd (getEndpointByIP env podIP (emit (Delete_entered podIP) w)))"
  using assms
  by (simp add: DeleteEndpointRoutePolicy_def split_beta classification_distinct[symmetric])

lemma Apply_classification:
  assumes "podIP \<noteq> []"
  shows "snd (fst (ApplyEndpointRoutePolicy env podIP metadataIP metadataPort nmiIP nmiPort w))
           \<in> {InvalidOperation, [], UnKnown}"
proof -
  obtain r w1 where g: "getEndpointByIP env podIP (emit (Apply_entered podIP) w) = (r, w1)"
    by (cases "getEndpointByIP env podIP (emit (Apply_entered podIP) w)")
  show ?thesis
  proof (cases r)
    case (Inl e)
    with assms g show ?thesis by (simp add: ApplyEndpointRoutePolicy_def)
  next
    case (Inr endpoint)
    obtain e ep w2 where a:
      "addEndpointPolicy env endpoint metadataIP metadataPort nmiIP nmiPort w1 = ((e, ep), w2)"
      by (metis prod.exhaust)
    from assms g Inr a show ?thesis
      by (cases e) (simp_all add: ApplyEndpointRoutePolicy_def)
  qed
qed

lemma Delete_classification:
  assumes "podIP \<noteq> []"
  shows "snd (fst (DeleteEndpointRoutePolicy env podIP metadataIP w))
           \<in> {InvalidOperation, [], UnKnown}"
proof -
  obtain r w1 where g: "getEndpointByIP env podIP (emit (Delete_entered podIP) w) = (r, w1)"
    by (cases "getEndpointByIP env podIP (emit (Delete_entered podIP) w)")
  show ?thesis
  proof (cases r)
    case (Inl e)
    with assms g show ?thesis by (simp add: DeleteEndpointRoutePolicy_def)
  next
    case (Inr endpoint)
    obtain e ep w2 where a:
      "deleteEndpointPolicy env endpoint metadataIP w1 = ((e, ep), w2)"
      by (metis prod.exhaust)
    from assms g Inr a show ?thesis
      by (cases e) (simp_all add: DeleteEndpointRoutePolicy_def)
  qed
qed

lemma Apply_NotFound_only_empty:
  assumes "snd (fst (ApplyEndpointRoutePolicy env podIP metadataIP metadataPort nmiIP nmiPort w)) = NotFound"
  shows "podIP = []"
proof (rule ccontr)
  assume "podIP \<noteq> []"
  from Apply_classification [OF this, of env metadataIP metadataPort nmiIP nmiPort w]
  have "NotFound \<in> {InvalidOperation, [], UnKnown}"
    unfolding assms .
  then show False
    by (simp add: classification_distinct classification_distinct[symmetric])
qed

lemma Delete_NotFound_only_empty:
  assumes "snd (fst (DeleteEndpointRoutePolicy env podIP metadataIP w)) = NotFound"
  shows "podIP = []"
proof (rule ccontr)
  assume "podIP \<noteq> []"
  from Delete_classification [OF this, of env metadataIP w]
  have "NotFound \<in> {InvalidOperation, [], UnKnown}"
    unfolding assms .
  then show False
    by (simp add: classification_distinct classification_distinct[symmetric])
qed

text \<open>
  Claim C10. With a pod IP that is not empty, a \<open>NotFound\<close> error of the locator makes both
  \<^verbatim>\<open>ApplyEndpointRoutePolicy\<close> and \<^verbatim>\<open>DeleteEndpointRoutePolicy\<close> return a nil error with the
  empty classification, in the world the locator left. The classification \<open>NotFound\<close> is
  returned for the empty pod IP only, and then nothing is done but returning the error
  \<open>Missing IP Address\<close>: the world gains the entry mark and no backend call.
\<close>

theorem NotFound_endpoint_is_silent:
  "(podIP \<noteq> [] \<longrightarrow>
      (\<forall>e. fst (getEndpointByIP env podIP (emit (Apply_entered podIP) w)) = Inl e
            \<and> errType e = NotFound \<longrightarrow>
         ApplyEndpointRoutePolicy env podIP metadataIP metadataPort nmiIP nmiPort w =
           ((None, []), snd (getEndpointByIP env podIP (emit (Apply_entered podIP) w))))
    \<and> (\<forall>e. fst (getEndpointByIP env podIP (emit (Delete_entered podIP) w)) = Inl e
            \<and> errType e = NotFound \<longrightarrow>
         DeleteEndpointRoutePolicy env podIP metadataIP w =
           ((None, []), snd (getEndpointByIP env podIP (emit (Delete_entered podIP) w)))))
   \<and> (snd (fst (ApplyEndpointRoutePolicy env podIP metadataIP metadataPort nmiIP nmiPort w))
         = NotFound \<longrightarrow> podIP = [])
   \<and> (snd (fst (DeleteEndpointRoutePolicy env podIP metadataIP w)) = NotFound \<longrightarrow> podIP = [])
   \<and> ApplyEndpointRoutePolicy env [] metadataIP metadataPort nmiIP nmiPort w =
        ((Some ''Missing IP Address'', NotFound), emit (Apply_entered []) w)
   \<and> DeleteEndpointRoutePolicy env [] metadataIP w =
        ((Some ''Missing IP Address'', NotFound), emit (Delete_entered []) w)"
proof (intro conjI impI allI)
  fix e
  assume "podIP \<noteq> []"
    and "fst (getEndpointByIP env podIP (emit (Apply_entered podIP) w)) = Inl e
         \<and> errType e = NotFound"
  then show "ApplyEndpointRoutePolicy env podIP metadataIP metadataPort nmiIP nmiPort w =
           ((None, []), snd (getEndpointByIP env podIP (emit (Apply_entered podIP) w)))"
    by (intro Apply_locator_NotFound [where e = e]) simp_all
next
  fix e
  assume "podIP \<noteq> []"
    and "fst (getEndpointByIP env podIP (emit (Delete_entered podIP) w)) = Inl e
         \<and> errType e = NotFound"
  then show "DeleteEndpointRoutePolicy env podIP metadataIP w =
           ((None, []), snd (getEndpointByIP env podIP (emit (Delete_entered podIP) w)))"
    by (intro Delete_locator_NotFound [where e = e]) simp_all
next
  assume "snd (fst (ApplyEndpointRoutePolicy env podIP metadataIP metadataPort nmiIP nmiPort w))
            = NotFound"
  then show "podIP = []" by (rule Apply_NotFound_only_empty)
next
  assume "snd (fst (DeleteEndpointRoutePolicy env podIP metadataIP w)) = NotFound"
  then show "podIP = []" by (rule Delete_NotFound_only_empty)
next
  show "ApplyEndpointRoutePolicy env [] metadataIP metadataPort nmiIP nmiPort w =
        ((Some ''Missing IP Address'', NotFound), emit (Apply_entered []) w)"
    by (rule Apply_empty_podIP)
next
  show "DeleteEndpointRoutePolicy env [] metadataIP w =
        ((Some ''Missing IP Address'', NotFound), emit (Delete_entered []) w)"
    by (rule Delete_empty_podIP)
qed

theorem NotFound_endpoint_is_silent_witness:
  "ApplyEndpointRoutePolicy (scripted_env never_visible ([], None)) ''10.0.0.5''
     ''169.254.169.254'' ''80'' ''10.0.0.1'' ''8429'' start =
   ((None, []),
    \<lparr>ext = 5, trace = [Apply_entered ''10.0.0.5'', Invoke enumerate_request, Sleep 1,
       Invoke enumerate_request, Sleep 2, Invoke enumerate_request, Sleep 4,
       Invoke enumerate_request, Sleep 8, Invoke enumerate_request]\<rparr>)"
proof -
  let ?env = "scripted_env never_visible ([], None)"
  let ?w = "emit (Apply_entered ''10.0.0.5'') start"
  have h1: "''10.0.0.5'' \<noteq> []" by simp
  have h2: "fst (getEndpointByIP ?env ''10.0.0.5'' ?w) =
              Inl \<lparr>errType = NotFound, err = no_endpoint_found ''10.0.0.5''\<rparr>"
    by code_simp
  have h3: "errType \<lparr>errType = NotFound, err = no_endpoint_found ''10.0.0.5''\<rparr> = NotFound"
    by simp
  have "ApplyEndpointRoutePolicy ?env ''10.0.0.5'' ''169.254.169.254'' ''80'' ''10.0.0.1'' ''8429''
          start = ((None, []), snd (getEndpointByIP ?env ''10.0.0.5'' ?w))"
    using NotFound_endpoint_is_silent [of "''10.0.0.5''" ?env start "''169.254.169.254''"
        "''80''" "''10.0.0.1''" "''8429''"] h1 h2 h3
    by simp
  also have "snd (getEndpointByIP ?env ''10.0.0.5'' ?w) =
    \<lparr>ext = 5, trace = [Apply_entered ''10.0.0.5'', Invoke enumerate_request, Sleep 1,
       Invoke enumerate_request, Sleep 2, Invoke enumerate_request, Sleep 4,
       Invoke enumerate_request, Sleep 8, Invoke enumerate_request]\<rparr>"
    by code_simp
  finally show ?thesis .
qed

section \<open>What the trace shows of the calls\<close>

lemma calls_emit: "calls (emit e w) = calls w @ (if is_call e then [e] else [])"
  by (simp add: calls_def emit_def)

lemma calls_ext_update [simp]: "calls (w\<lparr>ext := b\<rparr>) = calls w"
  by (simp add: calls_def)

lemma calls_time_Sleep [simp]: "calls (time_Sleep n w) = calls w"
  by (simp add: time_Sleep_def calls_emit)

lemma calls_Internal [simp]: "calls (snd (callHcnProxyAgentInternal env req w)) = calls w"
  by (simp add: callHcnProxyAgentInternal_def Let_def split_beta calls_emit split: option.split)

lemma calls_gateway_loop:
  "calls (snd (callHcnProxyAgent_loop env req rc sf w)) = calls w"
proof (induction env req rc sf w rule: callHcnProxyAgent_loop.induct)
  case (1 env req retryCount sleepFactor w)
  obtain r w1 where i: "callHcnProxyAgentInternal env req w = (r, w1)"
    by (cases "callHcnProxyAgentInternal env req w")
  then have w1: "calls w1 = calls w"
    using calls_Internal [of env req w] by simp
  show ?case
  proof (cases r)
    case (Inl e)
    show ?thesis
    proof (cases "retryCount > maxRetryCount")
      case True
      with i Inl w1 show ?thesis
        by (subst callHcnProxyAgent_loop.simps) simp
    next
      case False
      have "calls (snd (callHcnProxyAgent_loop env req (retryCount + 1) (sleepFactor * 2)
                      (time_Sleep sleepFactor w1))) = calls (time_Sleep sleepFactor w1)"
        using "1.IH" [OF i [symmetric] refl Inl False] .
      with i Inl w1 False show ?thesis
        by (subst callHcnProxyAgent_loop.simps) simp
    qed
  next
    case (Inr response)
    with i w1 show ?thesis
      by (subst callHcnProxyAgent_loop.simps) simp
  qed
qed

lemma calls_gateway [simp]: "calls (snd (callHcnProxyAgent env req w)) = calls w"
  by (simp add: callHcnProxyAgent_def calls_gateway_loop)

lemma calls_locator_loop:
  "calls (snd (getEndpointByIP_loop env ip rc sf w)) = calls w"
proof (induction env ip rc sf w rule: getEndpointByIP_loop.induct)
  case (1 env ip retryCount sleepFactor w)
  obtain r w1 where g: "callHcnProxyAgent env enumerate_request w = (r, w1)"
    by (cases "callHcnProxyAgent env enumerate_request w")
  then have w1: "calls w1 = calls w"
    using calls_gateway [of env enumerate_request w] by simp
  show ?case
  proof (cases r)
    case (Inl e)
    with g w1 show ?thesis
      by (subst getEndpointByIP_loop.simps) simp
  next
    case (Inr response)
    show ?thesis
    proof (cases "json_Unmarshal_endpoints response")
      case (Inl e)
      with g w1 Inr show ?thesis
        by (subst getEndpointByIP_loop.simps) simp
    next
      case dec: (Inr endpoints)
      show ?thesis
      proof (cases "find (\<lambda>ep. IPAddress ep = ip) endpoints")
        case (Some ep)
        with g w1 Inr dec show ?thesis
          by (subst getEndpointByIP_loop.simps) simp
      next
        case None
        show ?thesis
        proof (cases "retryCount > maxRetryCount")
          case True
          with g w1 Inr dec None show ?thesis
            by (subst getEndpointByIP_loop.simps) simp
        next
          case False
          have "calls (snd (getEndpointByIP_loop env ip (retryCount + 1) (sleepFactor * 2)
                        (time_Sleep sleepFactor w1))) = calls (time_Sleep sleepFactor w1)"
            using "1.IH" [OF g [symmetric] refl Inr dec None False] .
          with g w1 Inr dec None False show ?thesis
            by (subst getEndpointByIP_loop.simps) simp
        qed
      qed
    qed
  qed
qed

lemma calls_locator [simp]: "calls (snd (getEndpointByIP env ip w)) = calls w"
  by (simp add: getEndpointByIP_def calls_locator_loop)

lemma calls_addEndpointPolicy [simp]:
  "calls (snd (addEndpointPolicy env endpoint metadataIP metadataPort nmiIP nmiPort w)) = calls w"
  by (simp add: addEndpointPolicy_def Let_def split_beta split: sum.split)

lemma calls_deleteEndpointPolicy [simp]:
  "calls (snd (deleteEndpointPolicy env endpoint metadataIP w)) = calls w"
  by (simp add: deleteEndpointPolicy_def Let_def split_beta split: sum.split)

lemma calls_Apply:
  "calls (snd (ApplyEndpointRoutePolicy env podIP metadataIP metadataPort nmiIP nmiPort w)) =
     calls w @ [Apply_entered podIP]"
  by (simp add: ApplyEndpointRoutePolicy_def Let_def split_beta calls_emit
           split: sum.split option.split)

lemma calls_Delete:
  "calls (snd (DeleteEndpointRoutePolicy env podIP metadataIP w)) =
     calls w @ [Delete_entered podIP]"
  by (simp add: DeleteEndpointRoutePolicy_def Let_def split_beta calls_emit
           split: sum.split option.split)

lemma calls_upload [simp]: "calls (uploadIPRoutePolicyMetrics e server podIP w) = calls w"
  by (simp add: uploadIPRoutePolicyMetrics_def Let_def calls_emit)

lemma calls_list_pods [simp]: "calls (snd (list_pods env w)) = calls w"
  by (simp add: list_pods_def split_beta)

lemma calls_apply_existing_pod:
  "calls (apply_existing_pod env server podItem w) =
     calls w @ (if in_scope server podItem then [Apply_entered (Status_PodIP podItem)] else [])"
  by (simp add: apply_existing_pod_def in_scope_def split_beta calls_Apply)

lemma calls_fold_apply:
  "calls (fold (apply_existing_pod env server) pods w) =
     calls w @ map (\<lambda>p. Apply_entered (Status_PodIP p)) (filter (in_scope server) pods)"
  by (induction pods arbitrary: w) (simp_all add: calls_apply_existing_pod)

lemma calls_ApplyRoutePolicyForExistingPods:
  assumes "ListPods env (ext w) = ((listPods, e), b)"
  shows "calls (ApplyRoutePolicyForExistingPods env server w) =
           calls w @ map (\<lambda>p. Apply_entered (Status_PodIP p)) (filter (in_scope server) listPods)"
  using assms
  by (simp add: ApplyRoutePolicyForExistingPods_def list_pods_def calls_fold_apply)

lemma calls_delete_existing_pod:
  "calls (delete_existing_pod env server podItem w) =
     calls w @ (if on_node server podItem then [Delete_entered (Status_PodIP podItem)] else [])"
  by (simp add: delete_existing_pod_def on_node_def split_beta calls_Delete)

lemma calls_fold_delete:
  "calls (fold (delete_existing_pod env server) pods w) =
     calls w @ map (\<lambda>p. Delete_entered (Status_PodIP p)) (filter (on_node server) pods)"
  by (induction pods arbitrary: w) (simp_all add: calls_delete_existing_pod)

section \<open>Teardown\<close>

text \<open>
  Claim C7. Teardown enters \<^verbatim>\<open>DeleteEndpointRoutePolicy\<close> once for each listed pod whose node
  name is this node's, in the order of the listing and with the pod's IP whatever it is;
  after the last of them it sleeps 10 seconds, and the exit is the last thing it does, with
  code 0 if listing the pods gave no error and 1 if it did.
\<close>

theorem teardown_removes_sleeps_exits:
  fixes env :: "'b env"
  assumes "ListPods env (ext w) = ((listPods, e), b)"
  shows "\<exists>w2 :: 'b world. trace (DeleteRoutePolicyForExistingPods env server w) =
                 trace w2 @ [Sleep 10, Exit (if e = None then 0 else 1)]
             \<and> calls w2 = calls w @ map (\<lambda>p. Delete_entered (Status_PodIP p))
                                        (filter (on_node server) listPods)"
proof -
  let ?w2 = "fold (delete_existing_pod env server) listPods (w\<lparr>ext := b\<rparr>)"
  have t: "trace (DeleteRoutePolicyForExistingPods env server w) =
          trace ?w2 @ [Sleep 10, Exit (if e = None then 0 else 1)]"
    using assms
    by (simp add: DeleteRoutePolicyForExistingPods_def list_pods_def Let_def emit_def
                  time_Sleep_def)
  have c: "calls ?w2 = calls w @ map (\<lambda>p. Delete_entered (Status_PodIP p))
                                          (filter (on_node server) listPods)"
    by (simp add: calls_fold_delete)
  from t c show ?thesis by (rule exI [of _ ?w2, OF conjI])
qed

theorem teardown_removes_sleeps_exits_witness:
  "calls (DeleteRoutePolicyForExistingPods
            (scripted_env never_visible ([pod_without_ip, pod_elsewhere, pod_on_host_network], None))
            this_server start)
     = [Delete_entered [], Delete_entered ''10.0.0.1'', Exit 0]
   \<and> (\<exists>es. trace (DeleteRoutePolicyForExistingPods
            (scripted_env never_visible ([pod_without_ip, pod_elsewhere, pod_on_host_network], None))
            this_server start) = es @ [Sleep 10, Exit 0])"
proof -
  let ?pods = "[pod_without_ip, pod_elsewhere, pod_on_host_network]"
  let ?env = "scripted_env never_visible (?pods, None)"
  have h: "ListPods ?env (ext start) = ((?pods, None), 0)"
    by (simp add: scripted_env_def start_def)
  have "\<exists>w2 :: nat world.
          trace (DeleteRoutePolicyForExistingPods ?env this_server start) =
            trace w2 @ [Sleep 10, Exit 0]
          \<and> calls w2 = calls start @ map (\<lambda>p. Delete_entered (Status_PodIP p))
                                         (filter (on_node this_server) ?pods)"
    using teardown_removes_sleeps_exits [OF h, of this_server]
    by (simp only: simp_thms if_True)
  then obtain w2 :: "nat world" where tc:
    "trace (DeleteRoutePolicyForExistingPods ?env this_server start) =
       trace w2 @ [Sleep 10, Exit 0]
     \<and> calls w2 = calls start @ map (\<lambda>p. Delete_entered (Status_PodIP p))
                                    (filter (on_node this_server) ?pods)" ..
  note t = tc [THEN conjunct1] and c = tc [THEN conjunct2]
  have f: "filter (on_node this_server) ?pods = [pod_without_ip, pod_on_host_network]"
    by (simp add: on_node_def this_server_def pod_without_ip_def pod_elsewhere_def
                  pod_on_host_network_def)
  have "calls (DeleteRoutePolicyForExistingPods ?env this_server start) = calls w2 @ [Exit 0]"
    using t by (simp add: calls_def)
  also have "\<dots> = [Delete_entered [], Delete_entered ''10.0.0.1'', Exit 0]"
    unfolding c f
    by (simp add: calls_def start_def pod_without_ip_def pod_on_host_network_def)
  finally show ?thesis using t by (intro conjI exI [of _ "trace w2"])
qed

section \<open>The event loop: self-heal after a failed apply\<close>

lemma RoutePolicySelfHeal_sleeps_then_reconciles:
  "RoutePolicySelfHeal env server w =
     ApplyRoutePolicyForExistingPods env server (w\<lparr>trace := trace w @ [Sleep 10]\<rparr>)"
  by (simp add: RoutePolicySelfHeal_def time_Sleep_def emit_def)

text \<open>
  Claim C6. For a pod in scope, the event loop applies the policy and reports the metrics;
  if the apply returned an error whose classification is not \<open>NotFound\<close>, it then runs
  the self-heal, which sleeps 10 seconds and reconciles again: after the call for the pod
  itself, the policy is applied for every pod in scope of the listing taken then. With no
  error, or with an error classified \<open>NotFound\<close>, the loop does nothing more.
\<close>

theorem apply_error_self_heals_unless_NotFound:
  fixes env :: "'b env"
  assumes "Status_PodIP pod \<noteq> []" and "NodeName server = Spec_NodeName pod"
    and "HostIP server \<noteq> Status_PodIP pod"
    and "ApplyEndpointRoutePolicy env (Status_PodIP pod) (MetadataIP server)
           (MetadataPort server) (HostIP server) (NMIPort server) w = ((e, t), w1)"
    and "w2 = uploadIPRoutePolicyMetrics e server (Status_PodIP pod) w1"
  shows "(e \<noteq> None \<and> t \<noteq> NotFound \<longrightarrow>
            Sync_pod env server pod w = RoutePolicySelfHeal env server w2
          \<and> RoutePolicySelfHeal env server w2 =
              ApplyRoutePolicyForExistingPods env server (w2\<lparr>trace := trace w2 @ [Sleep 10]\<rparr>)
          \<and> (\<forall>listPods e' b. ListPods env (ext w2) = ((listPods, e'), b) \<longrightarrow>
                calls (Sync_pod env server pod w) =
                  calls w @ Apply_entered (Status_PodIP pod) #
                    map (\<lambda>p. Apply_entered (Status_PodIP p)) (filter (in_scope server) listPods)))
       \<and> (e = None \<or> t = NotFound \<longrightarrow> Sync_pod env server pod w = w2)"
proof -
  have heal: "e \<noteq> None \<and> t \<noteq> NotFound \<longrightarrow> Sync_pod env server pod w = RoutePolicySelfHeal env server w2"
    and rest: "e = None \<or> t = NotFound \<longrightarrow> Sync_pod env server pod w = w2"
    using assms by (simp_all add: Sync_pod_def Let_def)
  have w2: "calls w2 = calls w @ [Apply_entered (Status_PodIP pod)]"
    using calls_Apply [of env "Status_PodIP pod" "MetadataIP server" "MetadataPort server"
        "HostIP server" "NMIPort server" w]
    by (simp add: assms(4,5))
  have reconciled: "calls (RoutePolicySelfHeal env server w2) =
      calls w @ Apply_entered (Status_PodIP pod) #
        map (\<lambda>p. Apply_entered (Status_PodIP p)) (filter (in_scope server) listPods)"
    if "ListPods env (ext w2) = ((listPods, e'), b)" for listPods e' b
  proof -
    let ?w3 = "w2\<lparr>trace := trace w2 @ [Sleep 10]\<rparr>"
    have "ListPods env (ext ?w3) = ((listPods, e'), b)" using that by simp
    from calls_ApplyRoutePolicyForExistingPods [OF this, of server]
    show ?thesis
      by (simp add: RoutePolicySelfHeal_sleeps_then_reconciles) (simp add: calls_def w2 [unfolded calls_def])
  qed
  show ?thesis
    using heal rest reconciled
    by (simp add: RoutePolicySelfHeal_sleeps_then_reconciles [symmetric])
qed

lemma reconcile_nothing_listed:
  "trace (ApplyRoutePolicyForExistingPods (scripted_env script ([], e)) server
            (w\<lparr>trace := trace w @ [Sleep 10]\<rparr>)) = trace w @ [Sleep 10]"
  by (simp add: ApplyRoutePolicyForExistingPods_def list_pods_def scripted_env_def)

theorem apply_error_self_heals_unless_NotFound_witness:
  "\<exists>w2 :: nat world.
     trace (Sync_pod (scripted_env always_failing ([], None)) this_server pod_in_scope start) =
       trace w2 @ [Sleep 10]
     \<and> calls w2 = [Apply_entered ''10.0.0.5'']"
proof -
  let ?env = "scripted_env always_failing ([], None)"
  let ?A = "ApplyEndpointRoutePolicy ?env ''10.0.0.5'' ''169.254.169.254'' ''80'' ''10.0.0.1''
              ''8429'' start"
  let ?w2 = "uploadIPRoutePolicyMetrics (fst (fst ?A)) this_server ''10.0.0.5'' (snd ?A)"
  have e: "fst (fst ?A) \<noteq> None"
    by code_simp
  have t: "snd (fst ?A) = InvalidOperation"
    by code_simp
  have h1: "Status_PodIP pod_in_scope \<noteq> []"
    and h2: "NodeName this_server = Spec_NodeName pod_in_scope"
    and h3: "HostIP this_server \<noteq> Status_PodIP pod_in_scope"
    by (simp_all add: pod_in_scope_def this_server_def)
  have h4: "ApplyEndpointRoutePolicy ?env (Status_PodIP pod_in_scope) (MetadataIP this_server)
              (MetadataPort this_server) (HostIP this_server) (NMIPort this_server) start
            = ((fst (fst ?A), snd (fst ?A)), snd ?A)"
    by (simp add: pod_in_scope_def this_server_def)
  have h5: "?w2 = uploadIPRoutePolicyMetrics (fst (fst ?A)) this_server
                    (Status_PodIP pod_in_scope) (snd ?A)"
    by (simp add: pod_in_scope_def)
  have h6: "fst (fst ?A) \<noteq> None \<and> snd (fst ?A) \<noteq> NotFound"
    using e t by (simp add: InvalidOperation_def NotFound_def)
  note both = mp [OF conjunct1 [OF apply_error_self_heals_unless_NotFound [OF h1 h2 h3 h4 h5]] h6]
  have eq: "Sync_pod ?env this_server pod_in_scope start =
          ApplyRoutePolicyForExistingPods ?env this_server (?w2\<lparr>trace := trace ?w2 @ [Sleep 10]\<rparr>)"
    by (rule trans [OF conjunct1 [OF both] conjunct1 [OF conjunct2 [OF both]]])
  have tr: "trace (Sync_pod ?env this_server pod_in_scope start) = trace ?w2 @ [Sleep 10]"
    unfolding eq by (rule reconcile_nothing_listed)
  have "calls ?w2 = [Apply_entered ''10.0.0.5'']"
    by (simp add: calls_Apply) (simp add: calls_def start_def)
  with tr show ?thesis by - (rule exI [of _ ?w2], rule conjI)
qed

section \<open>Which pods the loops apply for, and the map of the incremental variant\<close>

text \<open>
  Claim C5, on the incremental variant. A pod of this node that has no IP yet is not in
  scope, but the guard of \<^verbatim>\<open>WindowsRedirector.Sync\<close> tests the node name and the host IP
  only: the loop enters \<^verbatim>\<open>ApplyEndpointRoutePolicy\<close> with the empty IP and records the empty
  IP for the pod's UID.
\<close>

theorem incremental_sync_applies_for_empty_ip:
  "\<not> in_scope this_server pod_without_ip
   \<and> snd (WindowsRedirector_Sync_pod (scripted_env never_visible ([], None)) this_server
             pod_without_ip (Map.empty, start))
       = \<lparr>ext = 0, trace = [Apply_entered []]\<rparr>
   \<and> fst (WindowsRedirector_Sync_pod (scripted_env never_visible ([], None)) this_server
             pod_without_ip (Map.empty, start)) ''uid-a'' = Some []"
  by (simp add: in_scope_def WindowsRedirector_Sync_pod_def this_server_def pod_without_ip_def
        ApplyEndpointRoutePolicy_def emit_def start_def)

text \<open>
  The variant with self-heal tests all three conditions, in the event loop and in the full
  reconciliation: what it applies are the policies of the pods in scope.
\<close>

lemma Sync_pod_out_of_scope:
  assumes "\<not> in_scope server pod"
  shows "Sync_pod env server pod w = w"
  using assms by (auto simp: Sync_pod_def in_scope_def)

lemma calls_Sync_pod_in_scope:
  fixes env :: "'b env"
  assumes "in_scope server pod"
  shows "\<exists>w2 :: 'b world. calls w2 = calls w @ [Apply_entered (Status_PodIP pod)]
           \<and> (Sync_pod env server pod w = w2
                \<or> Sync_pod env server pod w = RoutePolicySelfHeal env server w2)"
proof -
  let ?A = "ApplyEndpointRoutePolicy env (Status_PodIP pod) (MetadataIP server)
              (MetadataPort server) (HostIP server) (NMIPort server) w"
  let ?w2 = "uploadIPRoutePolicyMetrics (fst (fst ?A)) server (Status_PodIP pod) (snd ?A)"
  have c: "calls ?w2 = calls w @ [Apply_entered (Status_PodIP pod)]"
    by (simp add: calls_Apply)
  from assms have g: "Status_PodIP pod \<noteq> []" "NodeName server = Spec_NodeName pod"
    "HostIP server \<noteq> Status_PodIP pod"
    by (auto simp: in_scope_def)
  have "Sync_pod env server pod w = ?w2 \<or> Sync_pod env server pod w = RoutePolicySelfHeal env server ?w2"
    unfolding Sync_pod_def using g by (simp add: split_beta Let_def)
  with c show ?thesis by - (rule exI [of _ ?w2], rule conjI)
qed

theorem redirector_applies_in_scope_only:
  fixes env :: "'b env"
  shows "(\<not> in_scope server pod \<longrightarrow> Sync_pod env server pod w = w)
    \<and> (in_scope server pod \<longrightarrow>
         (\<exists>w2 :: 'b world. calls w2 = calls w @ [Apply_entered (Status_PodIP pod)]
            \<and> (Sync_pod env server pod w = w2
                 \<or> Sync_pod env server pod w = RoutePolicySelfHeal env server w2)))
    \<and> (\<forall>listPods e b. ListPods env (ext w) = ((listPods, e), b) \<longrightarrow>
         calls (ApplyRoutePolicyForExistingPods env server w) =
           calls w @ map (\<lambda>p. Apply_entered (Status_PodIP p)) (filter (in_scope server) listPods))"
  using Sync_pod_out_of_scope [of server pod env w] calls_Sync_pod_in_scope [of server pod w env]
    calls_ApplyRoutePolicyForExistingPods [of env w _ _ _ server]
  by (intro conjI impI allI) assumption+

theorem redirector_applies_in_scope_only_witness:
  "calls (ApplyRoutePolicyForExistingPods
            (scripted_env never_visible
               ([pod_without_ip, pod_in_scope, pod_elsewhere, pod_on_host_network], None))
            this_server start) = [Apply_entered ''10.0.0.5'']"
proof -
  let ?pods = "[pod_without_ip, pod_in_scope, pod_elsewhere, pod_on_host_network]"
  let ?env = "scripted_env never_visible (?pods, None)"
  have h: "ListPods ?env (ext start) = ((?pods, None), 0)"
    by (simp add: scripted_env_def start_def)
  have f: "filter (in_scope this_server) ?pods = [pod_in_scope]"
    by (simp add: in_scope_def this_server_def pod_without_ip_def pod_elsewhere_def
                  pod_on_host_network_def pod_in_scope_def)
  note T = redirector_applies_in_scope_only [of this_server pod_in_scope ?env start]
  from T [THEN conjunct2, THEN conjunct2, rule_format, OF h]
  show ?thesis
    unfolding f by (simp add: calls_def start_def pod_in_scope_def)
qed

text \<open>
  Claim C8, as the claim has it: an entry is made only when the apply succeeds. Here the
  backend fails every call, the apply returns an error, and the entry is made.
\<close>

theorem podMap_entry_despite_failed_apply:
  "fst (WindowsRedirector_Sync_pod (scripted_env always_failing ([], None)) this_server
          pod_in_scope (Map.empty, start)) ''uid-d'' = Some ''10.0.0.5''
   \<and> fst (ApplyEndpointRoutePolicy (scripted_env always_failing ([], None)) ''10.0.0.5''
            ''169.254.169.254'' ''80'' ''10.0.0.1'' ''8429'' start)
       = (Some ''Get endpoint for Pod IP - 10.0.0.5. Error: boom'', ''InvalidOperation'')"
proof (rule conjI)
  show "fst (WindowsRedirector_Sync_pod (scripted_env always_failing ([], None)) this_server
          pod_in_scope (Map.empty, start)) ''uid-d'' = Some ''10.0.0.5''"
    by (simp add: WindowsRedirector_Sync_pod_def this_server_def pod_in_scope_def split_beta)
next
  show "fst (ApplyEndpointRoutePolicy (scripted_env always_failing ([], None)) ''10.0.0.5''
            ''169.254.169.254'' ''80'' ''10.0.0.1'' ''8429'' start)
       = (Some ''Get endpoint for Pod IP - 10.0.0.5. Error: boom'', ''InvalidOperation'')"
    by code_simp
qed

text \<open>
  Claim C8, amended, for pods that have an IP. An event for a pod of this node whose IP
  is not empty and is not the host IP makes the entry from the pod's UID to its IP when
  the UID has none, before the apply is entered and whatever the apply returns. When the
  UID has an entry for an IP that is not empty, the delete is entered with the IP of the
  entry, not with the IP the pod has now, and the entry is removed. So two such events for
  one UID, the first with no entry for it, apply for the IP of the first and delete for
  that same IP. Nothing is said of a pod whose IP is empty.
\<close>

theorem podMap_entry_lifecycle:
  fixes env :: "'b env"
  assumes "NodeName server = Spec_NodeName pod" and "HostIP server \<noteq> Status_PodIP pod"
    and "Status_PodIP pod \<noteq> []"
  shows "(pm (UID pod) = None \<longrightarrow>
            WindowsRedirector_Sync_pod env server pod (pm, w) =
              (pm(UID pod \<mapsto> Status_PodIP pod),
               snd (ApplyEndpointRoutePolicy env (Status_PodIP pod) (MetadataIP server)
                      (MetadataPort server) (HostIP server) (NMIPort server) w)))
       \<and> (\<forall>podIP. pm (UID pod) = Some podIP \<and> podIP \<noteq> [] \<longrightarrow>
            WindowsRedirector_Sync_pod env server pod (pm, w) =
              (pm(UID pod := None),
               snd (DeleteEndpointRoutePolicy env podIP (MetadataIP server) w)))
       \<and> (\<forall>pod'. pm (UID pod) = None \<and> UID pod' = UID pod
              \<and> NodeName server = Spec_NodeName pod' \<and> HostIP server \<noteq> Status_PodIP pod'
              \<and> Status_PodIP pod' \<noteq> [] \<longrightarrow>
            fst (WindowsRedirector_Sync_loop env server [Got_pod pod, Got_pod pod'] (pm, w)) = pm
            \<and> calls (snd (WindowsRedirector_Sync_loop env server [Got_pod pod, Got_pod pod']
                             (pm, w)))
                = calls w @ [Apply_entered (Status_PodIP pod), Delete_entered (Status_PodIP pod)])"
proof (intro conjI impI allI)
  assume "pm (UID pod) = None"
  with assms show "WindowsRedirector_Sync_pod env server pod (pm, w) =
              (pm(UID pod \<mapsto> Status_PodIP pod),
               snd (ApplyEndpointRoutePolicy env (Status_PodIP pod) (MetadataIP server)
                      (MetadataPort server) (HostIP server) (NMIPort server) w))"
    by (simp add: WindowsRedirector_Sync_pod_def split_beta)
next
  fix podIP assume "pm (UID pod) = Some podIP \<and> podIP \<noteq> []"
  with assms show "WindowsRedirector_Sync_pod env server pod (pm, w) =
              (pm(UID pod := None), snd (DeleteEndpointRoutePolicy env podIP (MetadataIP server) w))"
    by (simp add: WindowsRedirector_Sync_pod_def split_beta)
next
  fix pod' :: Pod
  assume a: "pm (UID pod) = None \<and> UID pod' = UID pod
              \<and> NodeName server = Spec_NodeName pod' \<and> HostIP server \<noteq> Status_PodIP pod'
              \<and> Status_PodIP pod' \<noteq> []"
  let ?w1 = "snd (ApplyEndpointRoutePolicy env (Status_PodIP pod) (MetadataIP server)
                      (MetadataPort server) (HostIP server) (NMIPort server) w)"
  have s1: "WindowsRedirector_Sync_pod env server pod (pm, w) = (pm(UID pod \<mapsto> Status_PodIP pod), ?w1)"
    using assms a by (simp add: WindowsRedirector_Sync_pod_def split_beta)
  have s2: "WindowsRedirector_Sync_pod env server pod' (pm(UID pod \<mapsto> Status_PodIP pod), ?w1) =
              ((pm(UID pod \<mapsto> Status_PodIP pod))(UID pod := None),
               snd (DeleteEndpointRoutePolicy env (Status_PodIP pod) (MetadataIP server) ?w1))"
    using a by (simp add: WindowsRedirector_Sync_pod_def split_beta)
  have m: "pm(UID pod := None) = pm"
    using a by (auto simp: fun_eq_iff)
  show "fst (WindowsRedirector_Sync_loop env server [Got_pod pod, Got_pod pod'] (pm, w)) = pm"
    by (simp add: s1 s2 m)
  show "calls (snd (WindowsRedirector_Sync_loop env server [Got_pod pod, Got_pod pod'] (pm, w)))
          = calls w @ [Apply_entered (Status_PodIP pod), Delete_entered (Status_PodIP pod)]"
    by (simp add: s1 s2 calls_Delete calls_Apply)
qed

theorem podMap_entry_lifecycle_witness:
  "fst (WindowsRedirector_Sync_loop (scripted_env always_failing ([], None)) this_server
          [Got_pod pod_in_scope, Got_pod pod_moved] (Map.empty, start)) ''uid-d'' = None
   \<and> calls (snd (WindowsRedirector_Sync_loop (scripted_env always_failing ([], None)) this_server
          [Got_pod pod_in_scope, Got_pod pod_moved] (Map.empty, start)))
       = [Apply_entered ''10.0.0.5'', Delete_entered ''10.0.0.5'']"
proof -
  let ?env = "scripted_env always_failing ([], None)"
  have h1: "NodeName this_server = Spec_NodeName pod_in_scope"
    and h2: "HostIP this_server \<noteq> Status_PodIP pod_in_scope"
    and h0: "Status_PodIP pod_in_scope \<noteq> []"
    by (simp_all add: this_server_def pod_in_scope_def)
  have h3: "Map.empty (UID pod_in_scope) = None \<and> UID pod_moved = UID pod_in_scope
            \<and> NodeName this_server = Spec_NodeName pod_moved
            \<and> HostIP this_server \<noteq> Status_PodIP pod_moved
            \<and> Status_PodIP pod_moved \<noteq> []"
    by (simp add: this_server_def pod_in_scope_def pod_moved_def)
  note T = podMap_entry_lifecycle [OF h1 h2 h0, of Map.empty ?env start]
  note both = T [THEN conjunct2, THEN conjunct2, rule_format, OF h3]
  have "fst (WindowsRedirector_Sync_loop ?env this_server
          [Got_pod pod_in_scope, Got_pod pod_moved] (Map.empty, start)) ''uid-d'' = None"
    unfolding both [THEN conjunct1] by simp
  moreover have "calls (snd (WindowsRedirector_Sync_loop ?env this_server
          [Got_pod pod_in_scope, Got_pod pod_moved] (Map.empty, start)))
       = [Apply_entered ''10.0.0.5'', Delete_entered ''10.0.0.5'']"
    unfolding both [THEN conjunct2] by (simp add: calls_def start_def pod_in_scope_def)
  ultimately show ?thesis by (rule conjI)
qed

section \<open>The health probe: marking the node\<close>

lemma removeTaint_fold:
  "fold (\<lambda>taint newTaints. if Key taint = taintName then newTaints else newTaints @ [taint])
        taints acc = acc @ filter (\<lambda>t. Key t \<noteq> taintName) taints"
  by (induction taints arbitrary: acc) simp_all

lemma removeTaint_filter: "removeTaint taints taintName = filter (\<lambda>t. Key t \<noteq> taintName) taints"
  by (simp add: removeTaint_def removeTaint_fold)

text \<open>
  Claim C9, as the claim has it: at most one marker with the fixed key after each probe.
  A failed probe on a node that is marked already hands a node with two such markers to
  the update.
\<close>

theorem failed_probe_appends_second_marker:
  "Taints (updated (healthz backend_down marked_node True)) =
     [other_marker, hcn_marker, hcn_marker]"
  by (simp add: healthz_def backend_down_def marked_node_def hcn_marker_def hcnagentfailed_def
        TaintEffectNoSchedule_def)

text \<open>
  Claim C9, amended. When the enumerate call fails, the handler appends one marker with the
  fixed key and the effect NoSchedule to the node's markers, whether or not one is there
  already, and answers 500; when the call succeeds, it removes every marker with that key
  and answers 200. In both cases the markers with other keys are the same, in the same
  order, and the body says whether the condition holds. So a probe that succeeds leaves
  no marker with the fixed key, and a probe that fails leaves one more than there was.
\<close>

theorem healthz_marks_and_clears:
  "(Error res \<noteq> None \<longrightarrow>
      statusCode (healthz res node c) = 500
      \<and> Taints (updated (healthz res node c)) =
          Taints node @ [\<lparr>Key = hcnagentfailed, Taint_Value = [], Effect = TaintEffectNoSchedule\<rparr>])
   \<and> (Error res = None \<longrightarrow>
      statusCode (healthz res node c) = 200
      \<and> Taints (updated (healthz res node c)) =
          filter (\<lambda>t. Key t \<noteq> hcnagentfailed) (Taints node))
   \<and> filter (\<lambda>t. Key t \<noteq> hcnagentfailed) (Taints (updated (healthz res node c))) =
       filter (\<lambda>t. Key t \<noteq> hcnagentfailed) (Taints node)
   \<and> body (healthz res node c) = (if c then ''Active'' else ''Not Active'')
   \<and> (Error res = None \<longrightarrow>
      filter (\<lambda>t. Key t = hcnagentfailed) (Taints (updated (healthz res node c))) = [])
   \<and> (Error res \<noteq> None \<longrightarrow>
      length (filter (\<lambda>t. Key t = hcnagentfailed) (Taints (updated (healthz res node c)))) =
        length (filter (\<lambda>t. Key t = hcnagentfailed) (Taints node)) + 1)"
  by (simp add: healthz_def removeTaint_filter Let_def)

theorem healthz_marks_and_clears_witness:
  "statusCode (healthz backend_down marked_node True) = 500
   \<and> Taints (updated (healthz \<lparr>Error = None, Response = Endpoints_bytes []\<rparr>
                        \<lparr>Node_Name = ''node-1'', Taints = [other_marker, hcn_marker, hcn_marker]\<rparr>
                        False)) = [other_marker]"
proof -
  have h1: "Error backend_down \<noteq> None"
    by (simp add: backend_down_def)
  have h2: "Error \<lparr>Error = None, Response = Endpoints_bytes []\<rparr> = None"
    by simp
  note F = healthz_marks_and_clears [of backend_down marked_node True]
  note S = healthz_marks_and_clears [of "\<lparr>Error = None, Response = Endpoints_bytes []\<rparr>"
             "\<lparr>Node_Name = ''node-1'', Taints = [other_marker, hcn_marker, hcn_marker]\<rparr>" False]
  have "statusCode (healthz backend_down marked_node True) = 500"
    using mp [OF conjunct1 [OF F] h1] by (rule conjunct1)
  moreover have "Taints (updated (healthz \<lparr>Error = None, Response = Endpoints_bytes []\<rparr>
                        \<lparr>Node_Name = ''node-1'', Taints = [other_marker, hcn_marker, hcn_marker]\<rparr>
                        False)) = [other_marker]"
    unfolding conjunct2 [OF mp [OF conjunct1 [OF conjunct2 [OF S]] h2]]
    by (simp add: other_marker_def hcn_marker_def hcnagentfailed_def)
  ultimately show ?thesis by (rule conjI)
qed

end
